theory Spec2Isabelle
  imports Complex_Main "HOL-Library.Word" "HOL-Library.AList"
begin

unbundle bit_operations_syntax

section \<open>Go strings, hex encoding and MD5\<close>

text \<open>
  A Go \<open>string\<close> and a \<open>[]byte\<close> are both sequences of bytes, and \<open>len\<close> counts
  bytes. Both are modelled as \<^typ>\<open>string\<close>, whose characters are 8-bit values.
  \<open>strings.Join(r, "")\<close> is \<^const>\<open>concat\<close>.
\<close>

subsection \<open>\<open>encoding/hex\<close>\<close>

definition hexdigit :: "nat \<Rightarrow> char" where
  "hexdigit n = ''0123456789abcdef'' ! n"

definition hex_byte :: "char \<Rightarrow> string" where
  "hex_byte c = [hexdigit (of_char c div 16), hexdigit (of_char c mod 16)]"

definition hex_EncodeToString :: "string \<Rightarrow> string" where
  "hex_EncodeToString bs = concat (map hex_byte bs)"

subsection \<open>\<open>crypto/md5\<close>\<close>

text \<open>
  The MD5 function of RFC 1321 over 32-bit words. The message length is a 64-bit count of
  bits, as in Go's \<open>digest.len\<close>.
\<close>

definition md5_K :: "32 word list" where
  "md5_K = [0xd76aa478, 0xe8c7b756, 0x242070db, 0xc1bdceee, 0xf57c0faf, 0x4787c62a,
            0xa8304613, 0xfd469501, 0x698098d8, 0x8b44f7af, 0xffff5bb1, 0x895cd7be,
            0x6b901122, 0xfd987193, 0xa679438e, 0x49b40821, 0xf61e2562, 0xc040b340,
            0x265e5a51, 0xe9b6c7aa, 0xd62f105d, 0x02441453, 0xd8a1e681, 0xe7d3fbc8,
            0x21e1cde6, 0xc33707d6, 0xf4d50d87, 0x455a14ed, 0xa9e3e905, 0xfcefa3f8,
            0x676f02d9, 0x8d2a4c8a, 0xfffa3942, 0x8771f681, 0x6d9d6122, 0xfde5380c,
            0xa4beea44, 0x4bdecfa9, 0xf6bb4b60, 0xbebfbc70, 0x289b7ec6, 0xeaa127fa,
            0xd4ef3085, 0x04881d05, 0xd9d4d039, 0xe6db99e5, 0x1fa27cf8, 0xc4ac5665,
            0xf4292244, 0x432aff97, 0xab9423a7, 0xfc93a039, 0x655b59c3, 0x8f0ccc92,
            0xffeff47d, 0x85845dd1, 0x6fa87e4f, 0xfe2ce6e0, 0xa3014314, 0x4e0811a1,
            0xf7537e82, 0xbd3af235, 0x2ad7d2bb, 0xeb86d391]"

definition md5_S :: "nat list" where
  "md5_S = [7, 12, 17, 22, 7, 12, 17, 22, 7, 12, 17, 22, 7, 12, 17, 22,
            5, 9, 14, 20, 5, 9, 14, 20, 5, 9, 14, 20, 5, 9, 14, 20,
            4, 11, 16, 23, 4, 11, 16, 23, 4, 11, 16, 23, 4, 11, 16, 23,
            6, 10, 15, 21, 6, 10, 15, 21, 6, 10, 15, 21, 6, 10, 15, 21]"

definition md5_F :: "nat \<Rightarrow> 32 word \<Rightarrow> 32 word \<Rightarrow> 32 word \<Rightarrow> 32 word" where
  "md5_F i b c d =
     (if i < 16 then (b AND c) OR (NOT b AND d)
      else if i < 32 then (d AND b) OR (NOT d AND c)
      else if i < 48 then b XOR c XOR d
      else c XOR (b OR NOT d))"

definition md5_g :: "nat \<Rightarrow> nat" where
  "md5_g i =
     (if i < 16 then i
      else if i < 32 then (5 * i + 1) mod 16
      else if i < 48 then (3 * i + 5) mod 16
      else (7 * i) mod 16)"

type_synonym md5_state = "32 word \<times> 32 word \<times> 32 word \<times> 32 word"

definition md5_step :: "32 word list \<Rightarrow> md5_state \<Rightarrow> nat \<Rightarrow> md5_state" where
  "md5_step m st i =
     (case st of (a, b, c, d) \<Rightarrow>
        (d, b + word_rotl (md5_S ! i) (md5_F i b c d + a + md5_K ! i + m ! md5_g i), b, c))"

definition md5_block :: "md5_state \<Rightarrow> 32 word list \<Rightarrow> md5_state" where
  "md5_block st m =
     (case st of (a0, b0, c0, d0) \<Rightarrow>
        case foldl (md5_step m) st [0..<64] of (a, b, c, d) \<Rightarrow>
          (a0 + a, b0 + b, c0 + c, d0 + d))"

definition word_le_bytes :: "32 word \<Rightarrow> string" where
  "word_le_bytes w =
     [char_of (unat w), char_of (unat (drop_bit 8 w)), char_of (unat (drop_bit 16 w)),
      char_of (unat (drop_bit 24 w))]"

definition len_le_bytes :: "64 word \<Rightarrow> string" where
  "len_le_bytes n = map (\<lambda>i. char_of (unat (drop_bit (8 * i) n))) [0..<8]"

definition md5_pad :: "string \<Rightarrow> string" where
  "md5_pad msg =
     msg @ [CHR 0x80] @ replicate ((119 - length msg mod 64) mod 64) (CHR 0x00)
       @ len_le_bytes (8 * of_nat (length msg))"

fun le_words :: "string \<Rightarrow> 32 word list" where
  "le_words (b0 # b1 # b2 # b3 # bs) =
     (of_char b0 OR push_bit 8 (of_char b1) OR push_bit 16 (of_char b2) OR push_bit 24 (of_char b3))
       # le_words bs"
| "le_words _ = []"

primrec md5_blocks :: "nat \<Rightarrow> md5_state \<Rightarrow> 32 word list \<Rightarrow> md5_state" where
  "md5_blocks 0 st ws = st"
| "md5_blocks (Suc n) st ws = md5_blocks n (md5_block st (take 16 ws)) (drop 16 ws)"

definition md5_init :: md5_state where
  "md5_init = (0x67452301, 0xefcdab89, 0x98badcfe, 0x10325476)"

definition md5_checksum :: "string \<Rightarrow> string" where
  "md5_checksum msg =
     (let p = md5_pad msg in
      case md5_blocks (length p div 64) md5_init (le_words p) of (a, b, c, d) \<Rightarrow>
        word_le_bytes a @ word_le_bytes b @ word_le_bytes c @ word_le_bytes d)"

text \<open>
  Go's \<open>hash.Hash\<close>: \<open>md5.New()\<close> returns a digest to which nothing has been written;
  \<open>Write\<close> feeds data to it; \<open>Sum(b)\<close> appends the checksum of the data written so far
  to \<open>b\<close> and returns the resulting slice. \<open>Sum\<close> does not hash its argument.
\<close>

record digest =
  written :: string

definition md5_New :: digest where
  "md5_New = \<lparr>written = []\<rparr>"

definition md5_Write :: "digest \<Rightarrow> string \<Rightarrow> digest" where
  "md5_Write h p = h\<lparr>written := written h @ p\<rparr>"

definition md5_Sum :: "digest \<Rightarrow> string \<Rightarrow> string" where
  "md5_Sum h b = b @ md5_checksum (written h)"


section \<open>Phase A: staging rows in the key-value store\<close>

datatype error =
    IndexOutOfRange
  | UnknownSourceType
  | LoadValueError
  | SetError
  | OpenError
  | BeginError
  | InsertBusinessesError
  | CommitError
  | QueryBasesError
  | QueryFullError
  | FetchCNPJsError
  | ScanError
  | RowsError
  | QueryIDError
  | InvalidCNPJLength
  | MetaKeyTooLong
  | RenderError
  | ExecError

text \<open>
  The kinds of source file. \<open>venues\<close> is the kind that \<open>newKVItem\<close> does not stage:
  it takes the \<open>default\<close> branch of the switch.
\<close>

datatype sourceType =
  venues | base | partners | simpleTaxes | realProfit | presumedProfit | arbitratedProfit | noTaxes

record item =
  item_key :: string
  item_value :: string
  item_kind :: sourceType

text \<open>
  Modelled from the spec: the functions \<open>keyForPartners\<close>, \<open>keyForBase\<close>,
  \<open>keyForSimpleTaxes\<close>, \<open>keyForTaxRegime\<close> and the method \<open>isAccumulative\<close> are
  called by \<open>newKVItem\<close> but are not part of the sources at hand. The key prefixes follow
  the key-schema table (\<open>base:<base8>\<close>, \<open>partner:<base8>\<close>, \<open>simple:<base8>\<close>,
  \<open>regime:<14-digit ID>\<close>), and the accumulative kinds are partner, simple-taxes and
  the four tax regimes.
\<close>

definition keyForPartners :: "string \<Rightarrow> string" where
  "keyForPartners n = ''partner:'' @ n"

definition keyForBase :: "string \<Rightarrow> string" where
  "keyForBase n = ''base:'' @ n"

definition keyForSimpleTaxes :: "string \<Rightarrow> string" where
  "keyForSimpleTaxes n = ''simple:'' @ n"

definition keyForTaxRegime :: "string \<Rightarrow> string" where
  "keyForTaxRegime n = ''regime:'' @ n"

fun isAccumulative :: "sourceType \<Rightarrow> bool" where
  "isAccumulative partners = True"
| "isAccumulative simpleTaxes = True"
| "isAccumulative realProfit = True"
| "isAccumulative presumedProfit = True"
| "isAccumulative arbitratedProfit = True"
| "isAccumulative noTaxes = True"
| "isAccumulative _ = False"

text \<open>
  The row decoders \<open>loadPartnerRow\<close>, \<open>loadBaseRow\<close>, \<open>loadSimpleTaxesRow\<close> and
  \<open>loadTaxRow\<close> (with the lookup tables they read) are parameters: each maps a row to
  its serialized value, or to \<open>None\<close> when it returns an error.
\<close>

record loaders =
  loadPartnerRow :: "string list \<Rightarrow> string option"
  loadBaseRow :: "string list \<Rightarrow> string option"
  loadSimpleTaxesRow :: "string list \<Rightarrow> string option"
  loadTaxRow :: "string list \<Rightarrow> string option"

definition checksumFor :: "string list \<Rightarrow> string" where
  "checksumFor r = (let b = concat r; h = md5_New in hex_EncodeToString (md5_Sum h b))"

text \<open>\<open>r[0]\<close> and \<open>r[1]\<close>: an index out of range panics.\<close>

fun row_at :: "string list \<Rightarrow> nat \<Rightarrow> error + string" where
  "row_at [] n = Inl IndexOutOfRange"
| "row_at (x # xs) 0 = Inr x"
| "row_at (x # xs) (Suc n) = row_at xs n"

text \<open>The \<open>switch\<close> of \<open>newKVItem\<close>: the key before the suffix, and the decoder.\<close>

fun newKVItem_switch ::
  "loaders \<Rightarrow> sourceType \<Rightarrow> string list \<Rightarrow> error + (string \<times> (string list \<Rightarrow> string option))" where
  "newKVItem_switch l partners r =
     (case row_at r 0 of Inl e \<Rightarrow> Inl e | Inr n \<Rightarrow> Inr (keyForPartners n, loadPartnerRow l))"
| "newKVItem_switch l base r =
     (case row_at r 0 of Inl e \<Rightarrow> Inl e | Inr n \<Rightarrow> Inr (keyForBase n, loadBaseRow l))"
| "newKVItem_switch l simpleTaxes r =
     (case row_at r 0 of Inl e \<Rightarrow> Inl e | Inr n \<Rightarrow> Inr (keyForSimpleTaxes n, loadSimpleTaxesRow l))"
| "newKVItem_switch l realProfit r =
     (case row_at r 1 of Inl e \<Rightarrow> Inl e | Inr n \<Rightarrow> Inr (keyForTaxRegime n, loadTaxRow l))"
| "newKVItem_switch l presumedProfit r =
     (case row_at r 1 of Inl e \<Rightarrow> Inl e | Inr n \<Rightarrow> Inr (keyForTaxRegime n, loadTaxRow l))"
| "newKVItem_switch l arbitratedProfit r =
     (case row_at r 1 of Inl e \<Rightarrow> Inl e | Inr n \<Rightarrow> Inr (keyForTaxRegime n, loadTaxRow l))"
| "newKVItem_switch l noTaxes r =
     (case row_at r 1 of Inl e \<Rightarrow> Inl e | Inr n \<Rightarrow> Inr (keyForTaxRegime n, loadTaxRow l))"
| "newKVItem_switch l venues r = Inl UnknownSourceType"

definition newKVItem :: "loaders \<Rightarrow> sourceType \<Rightarrow> string list \<Rightarrow> error + item" where
  "newKVItem l s r =
     (case newKVItem_switch l s r of
        Inl e \<Rightarrow> Inl e
      | Inr (k0, h) \<Rightarrow>
          let k = (if isAccumulative s then k0 @ '':'' @ checksumFor r else k0) in
          (case h r of
             None \<Rightarrow> Inl LoadValueError
           | Some v \<Rightarrow> Inr \<lparr>item_key = k, item_value = v, item_kind = s\<rparr>))"

text \<open>The column of a row that carries its ID: the second for the tax regimes, else the first.\<close>

fun row_id :: "sourceType \<Rightarrow> string list \<Rightarrow> error + string" where
  "row_id realProfit r = row_at r 1"
| "row_id presumedProfit r = row_at r 1"
| "row_id arbitratedProfit r = row_at r 1"
| "row_id noTaxes r = row_at r 1"
| "row_id s r = row_at r 0"

text \<open>
  The store maps keys to values; \<open>tx.Set\<close> overwrites. \<open>loadChunk\<close> writes a chunk in one
  transaction: if a \<open>Set\<close> fails (\<open>set_fails\<close>, decided by the store) the update returns the
  error and nothing of the chunk is written.
\<close>

type_synonym kv = "string \<rightharpoonup> string"

definition tx_Set :: "kv \<Rightarrow> item \<Rightarrow> kv" where
  "tx_Set m i = m(item_key i \<mapsto> item_value i)"

definition loadChunk :: "(item \<Rightarrow> bool) \<Rightarrow> kv \<Rightarrow> item list \<Rightarrow> error + kv" where
  "loadChunk set_fails m items =
     (if list_ex set_fails items then Inl SetError else Inr (foldl tx_Set m items))"

subsection \<open>Opening the store\<close>

datatype logger = defaultLogger | noLogger

record Options =
  Dir :: string
  ReadOnly :: bool
  NumMemtables :: int
  NumLevelZeroTables :: int
  NumLevelZeroTablesStall :: int
  ValueLogMaxEntries :: "32 word"
  ValueLogFileSize :: "64 word"
  MemTableSize :: "64 word"
  Logger :: logger

record badgerDB =
  Opts :: Options

record badgerStorage =
  db :: badgerDB
  path :: string

text \<open>
  \<open>badger.DefaultOptions\<close> (\<open>dflt\<close>) and the success of \<open>badger.Open\<close> (\<open>open_fails\<close>)
  belong to the library and are parameters, as are \<open>runtime.GOOS\<close> and the \<open>DEBUG\<close>
  environment variable. The opened database remembers the options it was opened with.
\<close>

definition newBadgerStorage ::
  "(string \<Rightarrow> Options) \<Rightarrow> (Options \<Rightarrow> bool) \<Rightarrow> string \<Rightarrow> string \<Rightarrow> string \<Rightarrow> bool
     \<Rightarrow> error + badgerStorage" where
  "newBadgerStorage dflt open_fails goos debug dir ro =
     (let opt = dflt dir;
          opt = (if ro \<and> goos \<noteq> ''windows'' then opt\<lparr>ReadOnly := ro\<rparr> else opt);
          opt = opt\<lparr>NumMemtables := 1\<rparr>;
          opt = opt\<lparr>NumLevelZeroTables := 1\<rparr>;
          opt = opt\<lparr>NumLevelZeroTablesStall := 2\<rparr>;
          opt = opt\<lparr>ValueLogMaxEntries := 100000\<rparr>;
          opt = opt\<lparr>ValueLogFileSize := push_bit 20 64\<rparr>;
          opt = opt\<lparr>MemTableSize := push_bit 20 16\<rparr>;
          opt = (if debug = '''' then opt\<lparr>Logger := noLogger\<rparr> else opt)
      in if open_fails opt then Inl OpenError
         else Inr \<lparr>db = \<lparr>Opts = opt\<rparr>, path = dir\<rparr>)"

section \<open>Phase B: the structured tables (package \<open>db\<close>)\<close>

subsection \<open>String helpers\<close>

definition isDigit :: "char \<Rightarrow> bool" where
  "isDigit c = (c \<in> set ''0123456789'')"

text \<open>\<open>regexp.MustCompile(`\D`).ReplaceAllString(s, "")\<close>: every non-digit is removed.\<close>

definition removeNonDigits :: "string \<Rightarrow> string" where
  "removeNonDigits s = filter isDigit s"

definition truncateString :: "string \<Rightarrow> int \<Rightarrow> string" where
  "truncateString s maxLen =
     (if maxLen \<le> 0 then s
      else if int (length s) \<le> maxLen then s
      else if maxLen \<le> 3 then take (nat maxLen) s
      else take (nat (maxLen - 3)) s @ ''...'')"

definition truncateTo120 :: "string \<Rightarrow> string" where
  "truncateTo120 s = truncateString s 120"

fun strings_Join :: "string list \<Rightarrow> string \<Rightarrow> string" where
  "strings_Join [] sep = []"
| "strings_Join [x] sep = x"
| "strings_Join (x # y # ys) sep = x @ sep @ strings_Join (y # ys) sep"

fun nat_digits :: "nat \<Rightarrow> string" where
  "nat_digits n =
     (if n < 10 then [char_of (48 + n)] else nat_digits (n div 10) @ [char_of (48 + n mod 10)])"

declare nat_digits.simps [simp del]

definition Itoa :: "int \<Rightarrow> string" where
  "Itoa i = (if i < 0 then CHR ''-'' # nat_digits (nat (- i)) else nat_digits (nat i))"

text \<open>\<open>fmt.Sprintf("%07d", i)\<close>: zero-padded to seven characters, the sign included.\<close>

definition Sprintf_07d :: "int \<Rightarrow> string" where
  "Sprintf_07d i =
     (let ds = nat_digits (nat \<bar>i\<bar>) in
      if i < 0 then CHR ''-'' # replicate (6 - length ds) (CHR ''0'') @ ds
      else replicate (7 - length ds) (CHR ''0'') @ ds)"

subsection \<open>The records of package \<open>transform\<close> that the database layer reads\<close>

text \<open>
  A \<open>time.Time\<close> is a number of seconds. A \<open>float64\<close> capital is carried through unchanged
  and is modelled as a rational number; rounding plays no part in what follows.
\<close>

type_synonym time = int

type_synonym float64 = rat

record CNAE =
  Codigo :: int
  Descricao :: string

record PartnerData =
  NomeSocio :: string
  CNPJCPFDoSocio :: string
  QualificaoSocio :: "string option"
  DataEntradaSociedade :: "time option"

record Company =
  CNPJ :: string
  RazaoSocial :: string
  NomeFantasia :: string
  SituacaoCadastral :: "int option"
  CNAEFiscal :: "int option"
  CNAEFiscalDescricao :: "string option"
  CNAESecundarios :: "CNAE list"
  CapitalSocial :: "float64 option"
  CodigoNaturezaJuridica :: "int option"
  QualificacaoDoResponsavel :: "int option"
  CodigoPorte :: "int option"
  DescricaoMatrizFilial :: "string option"
  IdentificadorMatrizFilial :: "int option"
  DataSituacaoCadastral :: "time option"
  MotivoSituacaoCadastral :: "int option"
  DataInicioAtividade :: "time option"
  Email :: "string option"
  CEP :: string
  Numero :: string
  Logradouro :: string
  Bairro :: string
  Municipio :: "string option"
  UF :: string
  DescricaoTipoDeLogradouro :: string
  Complemento :: string
  Telefone1 :: string
  Telefone2 :: string
  Fax :: string
  QuadroSocietario :: "PartnerData list"

definition formatPhones :: "Company \<Rightarrow> string" where
  "formatPhones company =
     strings_Join (filter (\<lambda>p. p \<noteq> []) [Telefone1 company, Telefone2 company, Fax company]) '',''"

definition formatSecondaryCNAEs :: "CNAE list \<Rightarrow> string" where
  "formatSecondaryCNAEs cnaes =
     (if cnaes = [] then [] else strings_Join (map (\<lambda>c. Itoa (Codigo c)) cnaes) '','')"

definition formatCNAEPrincipal :: "int option \<Rightarrow> string" where
  "formatCNAEPrincipal cnae = (case cnae of None \<Rightarrow> [] | Some c \<Rightarrow> Sprintf_07d c)"

definition situacaoCadastralToString :: "int option \<Rightarrow> string" where
  "situacaoCadastralToString code =
     (case code of
        None \<Rightarrow> []
      | Some c \<Rightarrow>
          if c = 1 then ''NULA''
          else if c = 2 then ''ATIVA''
          else if c = 3 then ''SUSPENSA''
          else if c = 4 then ''INAPTA''
          else if c = 8 then ''BAIXADA''
          else [])"

definition getStringValue :: "string option \<Rightarrow> string" where
  "getStringValue s = (case s of None \<Rightarrow> [] | Some v \<Rightarrow> v)"

text \<open>
  \<open>convertDate\<close> receives a pointer to a date, whose underlying type is \<open>time.Time\<close>: a nil
  pointer gives nil, any other the time it points to.
\<close>

definition convertDate :: "time option \<Rightarrow> time option" where
  "convertDate d = (case d of None \<Rightarrow> None | Some t \<Rightarrow> Some t)"

definition itoa_opt :: "int option \<Rightarrow> string" where
  "itoa_opt x = (case x of None \<Rightarrow> [] | Some n \<Rightarrow> Itoa n)"

subsection \<open>The tables\<close>

text \<open>
  The 25 columns that an insert into \<open>business\<close> supplies, in the order of the statement.
\<close>

record business_values =
  cnpj :: string
  razao_social :: string
  nome_fantasia :: string
  situacao_cadastral :: string
  cnae_principal :: string
  tipo_cnae_principal :: string
  cnaes_secundarios :: string
  capital_social :: "float64 option"
  natureza_juridica :: string
  qualificacao_responsavel :: string
  porte_empresa :: string
  identificador_matriz_filial :: string
  data_situacao_cadastral :: "time option"
  motivo_situacao_cadastral :: string
  data_inicio_atividade :: "time option"
  email :: string
  endereco_cep :: string
  endereco_numero :: string
  endereco_logradouro :: string
  endereco_bairro :: string
  endereco_cidade :: string
  endereco_uf :: string
  endereco_tipo :: int
  endereco_complemento :: string
  telefones :: string

text \<open>
  Modelled from the spec: the schema of the tables is not part of the sources at hand. A row
  of \<open>business\<close> has a surrogate key \<open>id\<close>, the columns above with \<open>cnpj\<close> unique, and the
  timestamps \<open>updated_at\<close> and \<open>created_at\<close>, which an insert that does not supply them
  sets to the time of the insert. A row of \<open>socios_cnpj\<close> is unique in
  \<open>(cnpj, nome_socio)\<close>. The table \<open>meta\<close> maps keys to values.
\<close>

record business_row =
  b_id :: int
  vals :: business_values
  updated_at :: time
  created_at :: time

record socio_row =
  business_id :: int
  s_cnpj :: string
  nome_socio :: string
  cpf_socio :: "string option"
  data_entrada_sociedade :: "time option"
  qualificacao :: string

record database =
  business :: "business_row list"
  socios_cnpj :: "socio_row list"
  business_id_seq :: int
  meta :: "string \<rightharpoonup> string"

subsection \<open>The statements the code sends, and what they do\<close>

datatype statement =
    Begin
  | SetLocal string
  | InsertBusinesses "business_values list"
  | SelectByCNPJ "string list"
  | InsertSocios "socio_row list"
  | SelectByBase "string list"
  | SelectByID "int list"
  | SelectLike string
  | MetaSaveStmt string string
  | Commit
  | Rollback

text \<open>
  \<open>INSERT INTO business (...) VALUES ... ON CONFLICT (cnpj) DO NOTHING RETURNING id, cnpj\<close>:
  each tuple draws the next value of the key sequence; a tuple whose \<open>cnpj\<close> is already in
  the table (or was inserted by an earlier tuple of the statement) is skipped and not
  returned; any other is appended, stamped with the current time, and returned.
\<close>

fun insert_businesses ::
  "time \<Rightarrow> business_values list \<Rightarrow> database \<Rightarrow> database \<times> (int \<times> string) list" where
  "insert_businesses now [] d = (d, [])"
| "insert_businesses now (v # vs) d =
     (let i = business_id_seq d; d0 = d\<lparr>business_id_seq := i + 1\<rparr> in
      if list_ex (\<lambda>r. cnpj (vals r) = cnpj v) (business d)
      then insert_businesses now vs d0
      else
        (case insert_businesses now vs
                (d0\<lparr>business := business d @
                       [\<lparr>b_id = i, vals = v, updated_at = now, created_at = now\<rparr>]\<rparr>) of
           (d', returned) \<Rightarrow> (d', (i, cnpj v) # returned)))"

text \<open>\<open>SELECT id, cnpj FROM business WHERE cnpj IN (...)\<close>\<close>

definition select_by_cnpj :: "database \<Rightarrow> string list \<Rightarrow> (int \<times> string) list" where
  "select_by_cnpj d cs =
     map (\<lambda>r. (b_id r, cnpj (vals r))) (filter (\<lambda>r. cnpj (vals r) \<in> set cs) (business d))"

text \<open>\<open>SELECT id, LEFT(cnpj, 8) as cnpj_base FROM business WHERE LEFT(cnpj, 8) IN (...)\<close>\<close>

definition select_by_base :: "database \<Rightarrow> string list \<Rightarrow> (int \<times> string) list" where
  "select_by_base d bs =
     map (\<lambda>r. (b_id r, take 8 (cnpj (vals r))))
       (filter (\<lambda>r. take 8 (cnpj (vals r)) \<in> set bs) (business d))"

text \<open>\<open>SELECT id, cnpj FROM business WHERE id IN (...)\<close>\<close>

definition select_by_id :: "database \<Rightarrow> int list \<Rightarrow> (int \<times> string) list" where
  "select_by_id d ids =
     map (\<lambda>r. (b_id r, cnpj (vals r))) (filter (\<lambda>r. b_id r \<in> set ids) (business d))"

text \<open>\<open>SELECT id FROM business WHERE cnpj LIKE $1 || '%'\<close>, for an argument made of digits\<close>

definition select_like :: "database \<Rightarrow> string \<Rightarrow> int list" where
  "select_like d b =
     map b_id (filter (\<lambda>r. take (length b) (cnpj (vals r)) = b) (business d))"

text \<open>
  \<open>INSERT INTO socios_cnpj (...) VALUES ... ON CONFLICT (cnpj, nome_socio) DO NOTHING\<close>
\<close>

fun insert_socios :: "socio_row list \<Rightarrow> database \<Rightarrow> database" where
  "insert_socios [] d = d"
| "insert_socios (p # ps) d =
     (if list_ex (\<lambda>r. s_cnpj r = s_cnpj p \<and> nome_socio r = nome_socio p) (socios_cnpj d)
      then insert_socios ps d
      else insert_socios ps (d\<lparr>socios_cnpj := socios_cnpj d @ [p]\<rparr>))"

subsection \<open>Results, logs and failures\<close>

datatype level = Warn | Error

record result =
  ret :: "error option"
  logs :: "(level \<times> string) list"
  trace :: "statement list"
  final :: database

text \<open>
  Which calls to the database fail is for the environment to decide. A failed statement has
  no effect on the tables. A statement sent inside a transaction can fail in two ways. An
  error that the driver raises before the statement reaches the server leaves the
  transaction as it was. An error of the server aborts the transaction: every later
  statement of the transaction fails, and its \<open>COMMIT\<close> is answered by a rollback, which
  \<open>tx.Commit\<close> returns as an error.
\<close>

datatype failure = KeepsTransaction | AbortsTransaction

text \<open>
  A statement with the outcome \<open>x\<close>, sent in a transaction that is aborted or not: whether
  it fails, and whether the transaction is aborted afterwards.
\<close>

definition stmt_fails :: "bool \<Rightarrow> failure option \<Rightarrow> bool" where
  "stmt_fails aborted x = (aborted \<or> x \<noteq> None)"

definition stmt_aborts :: "bool \<Rightarrow> failure option \<Rightarrow> bool" where
  "stmt_aborts aborted x = (aborted \<or> x = Some AbortsTransaction)"

text \<open>
  The failures of \<open>CreateCompaniesStructuredDirect\<close>. A failure of the insert of the
  businesses is returned at once, whatever its kind; a failed \<open>Scan\<close> happens in the
  driver; of the other statements the kind of failure matters. \<open>commit_fails\<close> is a
  failure of the commit of a transaction that is not aborted.
\<close>

record direct_faults =
  begin_fails :: bool
  set_local_fails :: "string \<Rightarrow> failure option"
  insert_businesses_fails :: bool
  scan_returned_fails :: "string \<Rightarrow> bool"
  returned_rows_err :: "failure option"
  select_existing_fails :: "failure option"
  scan_existing_fails :: "string \<Rightarrow> bool"
  existing_rows_err :: "failure option"
  insert_partners_fails :: "failure option"
  commit_fails :: bool
  rollback_fails :: bool

subsection \<open>\<open>CreateCompaniesStructuredDirect\<close>\<close>

definition valid_cnpj :: "Company \<Rightarrow> bool" where
  "valid_cnpj company = (length (removeNonDigits (CNPJ company)) = 14)"

text \<open>The arguments appended for one company of the batch, in the first loop.\<close>

definition business_args :: "Company \<Rightarrow> business_values" where
  "business_args company =
     \<lparr>cnpj = removeNonDigits (CNPJ company),
      razao_social = take 200 (RazaoSocial company),
      nome_fantasia = take 200 (NomeFantasia company),
      situacao_cadastral = situacaoCadastralToString (SituacaoCadastral company),
      cnae_principal = formatCNAEPrincipal (CNAEFiscal company),
      tipo_cnae_principal = getStringValue (CNAEFiscalDescricao company),
      cnaes_secundarios = formatSecondaryCNAEs (CNAESecundarios company),
      capital_social = CapitalSocial company,
      natureza_juridica = itoa_opt (CodigoNaturezaJuridica company),
      qualificacao_responsavel = itoa_opt (QualificacaoDoResponsavel company),
      porte_empresa = itoa_opt (CodigoPorte company),
      identificador_matriz_filial =
        (case DescricaoMatrizFilial company of
           Some s \<Rightarrow> s
         | None \<Rightarrow> if IdentificadorMatrizFilial company = Some 2 then ''FILIAL'' else ''MATRIZ''),
      data_situacao_cadastral = convertDate (DataSituacaoCadastral company),
      motivo_situacao_cadastral = itoa_opt (MotivoSituacaoCadastral company),
      data_inicio_atividade = convertDate (DataInicioAtividade company),
      email = getStringValue (Email company),
      endereco_cep = take 8 (removeNonDigits (CEP company)),
      endereco_numero = Numero company,
      endereco_logradouro = take 200 (Logradouro company),
      endereco_bairro = take 200 (Bairro company),
      endereco_cidade = take 200 (getStringValue (Municipio company)),
      endereco_uf = UF company,
      endereco_tipo = 0,
      endereco_complemento = take 200 (Complemento company),
      telefones = formatPhones company\<rparr>"

text \<open>
  The first loop over the batch: a company whose cleaned CNPJ does not have 14 digits is
  logged and skipped.
\<close>

definition batch_values :: "Company list \<Rightarrow> business_values list" where
  "batch_values batch = map business_args (filter valid_cnpj batch)"

definition batch_invalid_logs :: "Company list \<Rightarrow> (level \<times> string) list" where
  "batch_invalid_logs batch =
     map (\<lambda>c. (Warn, ''invalid CNPJ length'')) (filter (\<lambda>c. \<not> valid_cnpj c) batch)"

text \<open>
  The insert of the businesses and the bookkeeping of \<open>businessIDMap\<close>: every cleaned CNPJ
  of the batch starts at 0, the returned rows fill in the keys of the inserted ones, and a
  second query looks up those that were not returned. The map is iterated in the order of
  the batch; Go leaves the order open, and the query does not depend on it.
\<close>

definition set_ids :: "(int \<times> string) list \<Rightarrow> (string \<rightharpoonup> int) \<Rightarrow> (string \<rightharpoonup> int)" where
  "set_ids rows m = foldl (\<lambda>m (i, c). m(c \<mapsto> i)) m rows"

definition resolve_inserted ::
  "direct_faults \<Rightarrow> (int \<times> string) list \<Rightarrow> business_values list
     \<Rightarrow> (string \<rightharpoonup> int) \<times> string list \<times> (level \<times> string) list" where
  "resolve_inserted f returned vs =
     (let scanned = filter (\<lambda>(i, c). \<not> scan_returned_fails f c) returned;
          m0 = map_of (map (\<lambda>v. (cnpj v, 0)) vs);
          m1 = set_ids scanned m0;
          missing = filter (\<lambda>c. c \<notin> set (map snd scanned)) (remdups (map cnpj vs));
          l = map (\<lambda>r. (Warn, ''error scanning business_id''))
                (filter (\<lambda>(i, c). scan_returned_fails f c) returned)
              @ (if returned_rows_err f \<noteq> None then [(Warn, ''error iterating business rows'')]
                 else [])
      in (m1, missing, l))"

definition resolve_existing ::
  "direct_faults \<Rightarrow> bool \<Rightarrow> database \<Rightarrow> string list \<Rightarrow> (string \<rightharpoonup> int)
     \<Rightarrow> (string \<rightharpoonup> int) \<times> (level \<times> string) list \<times> statement list \<times> bool" where
  "resolve_existing f aborted d missing m =
     (if missing = [] then (m, [], [], aborted)
      else if stmt_fails aborted (select_existing_fails f)
      then (m, [(Warn, ''error querying existing businesses'')], [SelectByCNPJ missing],
            stmt_aborts aborted (select_existing_fails f))
      else
        let rows = select_by_cnpj d missing;
            scanned = filter (\<lambda>(i, c). \<not> scan_existing_fails f c) rows;
            l = map (\<lambda>r. (Warn, ''error scanning existing business_id''))
                  (filter (\<lambda>(i, c). scan_existing_fails f c) rows)
                @ (if existing_rows_err f \<noteq> None
                   then [(Warn, ''error iterating existing business rows'')] else [])
        in (set_ids scanned m, l, [SelectByCNPJ missing],
            stmt_aborts aborted (existing_rows_err f)))"

text \<open>
  The second loop: the partners of every company with a valid CNPJ and a known, non-zero
  business key. A partner whose tax ID has more than 11 digits is logged and skipped.
\<close>

definition direct_partner_ok :: "PartnerData \<Rightarrow> bool" where
  "direct_partner_ok partner = (length (removeNonDigits (CNPJCPFDoSocio partner)) \<le> 11)"

definition cpf_value :: "PartnerData \<Rightarrow> string option" where
  "cpf_value partner =
     (let cleanCPFSocio = removeNonDigits (CNPJCPFDoSocio partner)
      in if cleanCPFSocio \<noteq> [] then Some cleanCPFSocio else None)"

definition direct_partner_args :: "int \<Rightarrow> string \<Rightarrow> PartnerData \<Rightarrow> socio_row" where
  "direct_partner_args businessID cleanCNPJ partner =
     \<lparr>business_id = businessID, s_cnpj = cleanCNPJ,
      nome_socio = take 200 (NomeSocio partner),
      cpf_socio = cpf_value partner,
      data_entrada_sociedade = DataEntradaSociedade partner,
      qualificacao = take 200 (getStringValue (QualificaoSocio partner))\<rparr>"

definition company_has_id :: "(string \<rightharpoonup> int) \<Rightarrow> Company \<Rightarrow> bool" where
  "company_has_id m company =
     (valid_cnpj company \<and>
      (case m (removeNonDigits (CNPJ company)) of None \<Rightarrow> False | Some i \<Rightarrow> i \<noteq> 0))"

definition company_partner_values :: "(string \<rightharpoonup> int) \<Rightarrow> Company \<Rightarrow> socio_row list" where
  "company_partner_values m company =
     (if company_has_id m company
      then map (direct_partner_args (the (m (removeNonDigits (CNPJ company))))
                  (removeNonDigits (CNPJ company)))
             (filter direct_partner_ok (QuadroSocietario company))
      else [])"

definition batch_partner_values :: "(string \<rightharpoonup> int) \<Rightarrow> Company list \<Rightarrow> socio_row list" where
  "batch_partner_values m batch = concat (map (company_partner_values m) batch)"

definition company_partner_logs :: "(string \<rightharpoonup> int) \<Rightarrow> Company \<Rightarrow> (level \<times> string) list" where
  "company_partner_logs m company =
     (if company_has_id m company
      then map (\<lambda>p. (Warn, ''CPF com mais de 11 digitos, ignorando socio''))
             (filter (\<lambda>p. \<not> direct_partner_ok p) (QuadroSocietario company))
      else [])"

definition batch_partner_logs :: "(string \<rightharpoonup> int) \<Rightarrow> Company list \<Rightarrow> (level \<times> string) list" where
  "batch_partner_logs m batch = concat (map (company_partner_logs m) batch)"

definition set_local_names :: "string list" where
  "set_local_names =
     [''synchronous_commit'', ''work_mem'', ''maintenance_work_mem'', ''constraint_exclusion'']"

text \<open>
  The warning logged when a \<open>SET LOCAL\<close> fails. (The messages of the log are written
  here without their accents.)
\<close>

definition set_local_message :: "string \<Rightarrow> string" where
  "set_local_message n =
     (if n = ''synchronous_commit'' then ''Could not disable synchronous commit''
      else ''Could not set '' @ n)"

text \<open>
  The \<open>SET LOCAL\<close> statements at the start of a transaction: a failure is logged with a
  warning. The result says whether the transaction is aborted afterwards.
\<close>

fun set_locals ::
  "(string \<Rightarrow> failure option) \<Rightarrow> bool \<Rightarrow> string list \<Rightarrow> bool \<times> (level \<times> string) list" where
  "set_locals fails aborted [] = (aborted, [])"
| "set_locals fails aborted (n # ns) =
     (case set_locals fails (stmt_aborts aborted (fails n)) ns of
        (a, l) \<Rightarrow>
          (a, (if stmt_fails aborted (fails n) then [(Warn, set_local_message n)] else []) @ l))"

text \<open>
  The insert of the businesses, when it does not fail, and the lookups that follow it: the
  tables inside the transaction, the map of business keys, the warnings logged, the
  statements sent, and whether the transaction is aborted afterwards. A failure while the
  returned rows are read and a failure of the query for the existing businesses are logged
  with a warning. When the rows returned by the insert end with an error, the rows are
  those that arrived before it.
\<close>

definition direct_businesses ::
  "direct_faults \<Rightarrow> time \<Rightarrow> database \<Rightarrow> business_values list \<Rightarrow> bool
     \<Rightarrow> database \<times> (string \<rightharpoonup> int) \<times> (level \<times> string) list \<times> statement list \<times> bool" where
  "direct_businesses f now d vs a0 =
     (if vs = [] then (d, Map.empty, [], [], a0)
      else
        (case insert_businesses now vs d of
           (d1, returned) \<Rightarrow>
             (case resolve_inserted f returned vs of
                (m1, missing, l1) \<Rightarrow>
                  (case resolve_existing f (stmt_aborts False (returned_rows_err f))
                          d1 missing m1 of
                     (m2, l2, t2, a2) \<Rightarrow>
                       (d1, m2, l1 @ l2, InsertBusinesses vs # t2, a2)))))"

text \<open>
  The insert of the partners: a failure is logged with a warning, and the function goes on
  to the commit.
\<close>

definition direct_partners ::
  "direct_faults \<Rightarrow> database \<Rightarrow> socio_row list \<Rightarrow> bool
     \<Rightarrow> database \<times> (level \<times> string) list \<times> statement list \<times> bool" where
  "direct_partners f d1 ps a1 =
     (if ps = [] then (d1, [], [], a1)
      else if stmt_fails a1 (insert_partners_fails f)
      then (d1, [(Warn, ''error batch inserting partners'')], [InsertSocios ps],
            stmt_aborts a1 (insert_partners_fails f))
      else (insert_socios ps d1, [], [InsertSocios ps], a1))"

text \<open>
  The commit: it fails in an aborted transaction. A failed commit is returned, after a
  rollback, and the tables are then as they were before the transaction.
\<close>

definition direct_commit ::
  "direct_faults \<Rightarrow> database \<Rightarrow> database \<Rightarrow> bool \<Rightarrow> (level \<times> string) list \<Rightarrow> statement list
     \<Rightarrow> result" where
  "direct_commit f d d2 aborted l t =
     (if aborted \<or> commit_fails f
      then \<lparr>ret = Some CommitError,
            logs = l @ (if rollback_fails f then [(Warn, ''error rolling back failed commit'')]
                        else []),
            trace = t @ [Commit, Rollback], final = d\<rparr>
      else \<lparr>ret = None, logs = l, trace = t @ [Commit], final = d2\<rparr>)"

text \<open>
  The function. A failure to begin and a failure of the insert of the businesses are
  returned, and the tables are then as before (the deferred rollback).
\<close>

definition CreateCompaniesStructuredDirect ::
  "direct_faults \<Rightarrow> time \<Rightarrow> database \<Rightarrow> Company list \<Rightarrow> result" where
  "CreateCompaniesStructuredDirect f now d batch =
     (if begin_fails f then \<lparr>ret = Some BeginError, logs = [], trace = [], final = d\<rparr>
      else
        (case set_locals (set_local_fails f) False set_local_names of
           (a0, ls) \<Rightarrow>
             let l0 = ls @ batch_invalid_logs batch;
                 t0 = Begin # map SetLocal set_local_names;
                 vs = batch_values batch
             in
             if vs \<noteq> [] \<and> (a0 \<or> insert_businesses_fails f)
             then \<lparr>ret = Some InsertBusinessesError,
                   logs = l0 @ [(Error, ''error batch inserting businesses'')],
                   trace = t0 @ [InsertBusinesses vs, Rollback], final = d\<rparr>
             else
               (case direct_businesses f now d vs a0 of
                  (d1, m, l1, t1, a1) \<Rightarrow>
                    let ps = batch_partner_values m batch in
                    (case direct_partners f d1 ps a1 of
                       (d2, l3, t3, a3) \<Rightarrow>
                         direct_commit f d d2 a3
                           (l0 @ l1 @ batch_partner_logs m batch @ l3) (t0 @ t1 @ t3)))))"

text \<open>
  Modelled from the spec: the workers that call \<open>CreateCompaniesStructuredDirect\<close> are not
  part of the sources at hand. Each batch is written in one transaction; a worker reports the
  error of its batch and the run is cancelled. A run is modelled as its batches written one
  after the other, each at its own time, stopping at the first batch that returns an error.
\<close>

fun write_batches ::
  "direct_faults \<Rightarrow> database \<Rightarrow> (time \<times> Company list) list \<Rightarrow> error option \<times> database" where
  "write_batches f d [] = (None, d)"
| "write_batches f d ((now, batch) # rest) =
     (let r = CreateCompaniesStructuredDirect f now d batch in
      case ret r of
        Some e \<Rightarrow> (Some e, final r)
      | None \<Rightarrow> write_batches f (final r) rest)"

definition business_cnpjs :: "database \<Rightarrow> string set" where
  "business_cnpjs d = set (map (\<lambda>r. cnpj (vals r)) (business d))"

fun is_InsertBusinesses :: "statement \<Rightarrow> bool" where
  "is_InsertBusinesses (InsertBusinesses vs) = True"
| "is_InsertBusinesses _ = False"

text \<open>The surrogate keys come from a sequence that starts at 1: none is 0.\<close>

definition ids_nonzero :: "database \<Rightarrow> bool" where
  "ids_nonzero d = (list_all (\<lambda>r. b_id r \<noteq> 0) (business d) \<and> 0 < business_id_seq d)"

text \<open>The map of business keys that the writer holds after the insert and the two lookups.\<close>

definition direct_id_map :: "direct_faults \<Rightarrow> time \<Rightarrow> database \<Rightarrow> business_values list \<Rightarrow> (string \<rightharpoonup> int)" where
  "direct_id_map f now d vs =
     (case insert_businesses now vs d of
        (d1, returned) \<Rightarrow>
          (case resolve_inserted f returned vs of
             (m1, missing, l1) \<Rightarrow>
               fst (resolve_existing f (stmt_aborts False (returned_rows_err f)) d1 missing m1)))"

text \<open>
  Whether the transaction is aborted after the insert of the businesses and the lookup of
  the existing ones: by the rows of the insert or by the query.
\<close>

definition direct_lookup_aborts :: "direct_faults \<Rightarrow> time \<Rightarrow> database \<Rightarrow> business_values list \<Rightarrow> bool" where
  "direct_lookup_aborts f now d vs =
     (case insert_businesses now vs d of
        (d1, returned) \<Rightarrow>
          (case resolve_inserted f returned vs of
             (m1, missing, l1) \<Rightarrow>
               snd (snd (snd (resolve_existing f (stmt_aborts False (returned_rows_err f))
                                d1 missing m1)))))"

text \<open>Whether the transaction of the writer is aborted when it reaches the commit.\<close>

definition direct_aborted :: "direct_faults \<Rightarrow> time \<Rightarrow> database \<Rightarrow> Company list \<Rightarrow> bool" where
  "direct_aborted f now d batch =
     (let vs = batch_values batch;
          a1 = (if vs = [] then fst (set_locals (set_local_fails f) False set_local_names)
                else direct_lookup_aborts f now d vs);
          m = (if vs = [] then Map.empty else direct_id_map f now d vs)
      in if batch_partner_values m batch = [] then a1
         else stmt_aborts a1 (insert_partners_fails f))"

subsection \<open>\<open>ImportPartnersBatch\<close>\<close>

text \<open>
  A Go map is modelled as an association list with distinct keys; the order of the list is
  the order in which \<open>range\<close> visits the map, which Go leaves open. A new key is added at
  the end, an assignment to an existing key keeps its place.
\<close>

type_synonym ('k, 'v) gomap = "('k \<times> 'v) list"

definition lookup_list :: "('k, 'v list) gomap \<Rightarrow> 'k \<Rightarrow> 'v list" where
  "lookup_list m k = (case map_of m k of None \<Rightarrow> [] | Some l \<Rightarrow> l)"

definition append_at :: "'k \<Rightarrow> 'v list \<Rightarrow> ('k, 'v list) gomap \<Rightarrow> ('k, 'v list) gomap" where
  "append_at k vs m = AList.update k (lookup_list m k @ vs) m"

text \<open>
  The failures of \<open>ImportPartnersBatch\<close>. The lookups are sent outside of a transaction.
  A failed insert is followed by a rollback, so that only of the \<open>SET LOCAL\<close> statements
  the kind of failure matters.
\<close>

record batch_faults =
  query_bases_fails :: bool
  scan_bases_fails :: bool
  bases_rows_err :: bool
  query_full_fails :: bool
  scan_full_fails :: bool
  full_rows_err :: bool
  fetch_cnpjs_fails :: bool
  scan_cnpjs_fails :: bool
  cnpjs_rows_err :: bool
  tx_begin_fails :: "int \<Rightarrow> bool"
  tx_set_local_fails :: "int \<Rightarrow> string \<Rightarrow> failure option"
  tx_insert_fails :: "int \<Rightarrow> bool"
  tx_commit_fails :: "int \<Rightarrow> bool"

text \<open>
  One of the three lookup queries: a failure of the query, of a \<open>Scan\<close> of one of its rows
  or of the iteration is returned by \<open>ImportPartnersBatch\<close>.
\<close>

definition run_query ::
  "bool \<Rightarrow> bool \<Rightarrow> bool \<Rightarrow> error \<Rightarrow> (int \<times> string) list \<Rightarrow> error + (int \<times> string) list" where
  "run_query query_fails scan_fails rows_err e rows =
     (if query_fails then Inl e
      else if rows \<noteq> [] \<and> scan_fails then Inl ScanError
      else if rows_err then Inl RowsError
      else Inr rows)"

text \<open>The first loop: the keys are cleaned and sorted by length into bases and full CNPJs.\<close>

definition cnpjToPartners_of ::
  "(string, PartnerData list) gomap \<Rightarrow> (string, PartnerData list) gomap" where
  "cnpjToPartners_of batch =
     foldl (\<lambda>m (c, ps). AList.update (removeNonDigits c) ps m) [] batch"

definition baseCNPJs_of :: "(string, PartnerData list) gomap \<Rightarrow> string list" where
  "baseCNPJs_of batch = filter (\<lambda>c. length c = 8) (map (\<lambda>(c, ps). removeNonDigits c) batch)"

definition fullCNPJs_of :: "(string, PartnerData list) gomap \<Rightarrow> string list" where
  "fullCNPJs_of batch = filter (\<lambda>c. length c = 14) (map (\<lambda>(c, ps). removeNonDigits c) batch)"

definition add_business_ids ::
  "(int \<times> string) list \<Rightarrow> (string, int list) gomap \<Rightarrow> (string, int list) gomap" where
  "add_business_ids rows m = foldl (\<lambda>m (i, c). append_at c [i] m) m rows"

text \<open>The partners of one business, as the arguments of its insert.\<close>

definition import_partner_args :: "int \<Rightarrow> string \<Rightarrow> PartnerData \<Rightarrow> socio_row" where
  "import_partner_args businessID fullCNPJ partner =
     \<lparr>business_id = businessID, s_cnpj = fullCNPJ,
      nome_socio = truncateTo120 (NomeSocio partner),
      cpf_socio = cpf_value partner,
      data_entrada_sociedade = DataEntradaSociedade partner,
      qualificacao = truncateTo120 (getStringValue (QualificaoSocio partner))\<rparr>"

definition import_partner_values :: "int \<Rightarrow> string \<Rightarrow> PartnerData list \<Rightarrow> socio_row list" where
  "import_partner_values businessID fullCNPJ ps =
     map (import_partner_args businessID fullCNPJ) (filter direct_partner_ok ps)"

definition import_partner_logs :: "PartnerData list \<Rightarrow> (level \<times> string) list" where
  "import_partner_logs ps =
     map (\<lambda>p. (Warn, ''CPF com mais de 11 digitos, ignorando socio''))
       (filter (\<lambda>p. \<not> direct_partner_ok p) ps)"

text \<open>
  The grouping loop: the partners of every key go to each business found for the key.
\<close>

definition group_ids ::
  "(int, string) gomap \<Rightarrow> PartnerData list \<Rightarrow>
     (int, PartnerData list) gomap \<times> (int, string) gomap \<times> (level \<times> string) list \<Rightarrow> int \<Rightarrow>
     (int, PartnerData list) gomap \<times> (int, string) gomap \<times> (level \<times> string) list" where
  "group_ids businessIDToCNPJ ps acc businessID =
     (case acc of (toPartners, toFullCNPJ, l) \<Rightarrow>
        (case map_of businessIDToCNPJ businessID of
           None \<Rightarrow> (toPartners, toFullCNPJ, l @ [(Warn, ''CNPJ not found for business_id'')])
         | Some fullCNPJ \<Rightarrow>
             (append_at businessID ps toPartners, AList.update businessID fullCNPJ toFullCNPJ, l)))"

definition group_partners ::
  "(string, int list) gomap \<Rightarrow> (int, string) gomap \<Rightarrow> (string, PartnerData list) gomap \<Rightarrow>
     (int, PartnerData list) gomap \<times> (int, string) gomap \<times> (level \<times> string) list" where
  "group_partners cnpjToBusinessIDs businessIDToCNPJ cnpjToPartners =
     foldl (\<lambda>acc (c, ps).
              if lookup_list cnpjToBusinessIDs c = []
              then (case acc of (tp, tc, l) \<Rightarrow>
                      (tp, tc, l @ [(Warn, ''No businesses found for CNPJ, skipping partners'')]))
              else foldl (group_ids businessIDToCNPJ ps) acc (lookup_list cnpjToBusinessIDs c))
       ([], [], []) cnpjToPartners"

definition tx_set_local_names :: "string list" where
  "tx_set_local_names = [''synchronous_commit'', ''work_mem'']"

text \<open>
  The last loop: one transaction per business. A failure to begin is returned; a failure of
  the insert or of the commit is logged, the transaction is rolled back and the loop goes
  on with the next business. In a transaction that a \<open>SET LOCAL\<close> has aborted, the insert
  fails, and so does the commit when there is nothing to insert.
\<close>

fun import_transactions ::
  "batch_faults \<Rightarrow> (int, string) gomap \<Rightarrow> database \<Rightarrow> (int, PartnerData list) gomap \<Rightarrow> result" where
  "import_transactions f toFullCNPJ d [] = \<lparr>ret = None, logs = [], trace = [], final = d\<rparr>"
| "import_transactions f toFullCNPJ d ((businessID, ps) # rest) =
     (if tx_begin_fails f businessID
      then \<lparr>ret = Some BeginError, logs = [], trace = [], final = d\<rparr>
      else
        (case set_locals (tx_set_local_fails f businessID) False tx_set_local_names of
           (a0, ls) \<Rightarrow>
        let fullCNPJ = (case map_of toFullCNPJ businessID of None \<Rightarrow> [] | Some c \<Rightarrow> c);
            l0 = ls @ import_partner_logs ps;
            t0 = Begin # map SetLocal tx_set_local_names;
            rows = import_partner_values businessID fullCNPJ ps
        in
        (case (if rows \<noteq> [] \<and> (a0 \<or> tx_insert_fails f businessID)
               then (d, l0 @ [(Warn, ''error batch inserting partners'')],
                     t0 @ [InsertSocios rows, Rollback])
               else if a0 \<or> tx_commit_fails f businessID
               then (d, l0 @ [(Warn, ''error committing transaction'')],
                     t0 @ (if rows = [] then [] else [InsertSocios rows]) @ [Commit, Rollback])
               else (if rows = [] then d else insert_socios rows d, l0,
                     t0 @ (if rows = [] then [] else [InsertSocios rows]) @ [Commit])) of
           (d', l, t) \<Rightarrow>
             let r = import_transactions f toFullCNPJ d' rest
             in r\<lparr>logs := l @ logs r, trace := t @ trace r\<rparr>)))"

definition import_failed :: "error \<Rightarrow> statement list \<Rightarrow> database \<Rightarrow> result" where
  "import_failed e t d = \<lparr>ret = Some e, logs = [], trace = t, final = d\<rparr>"

text \<open>
  The lookups of \<open>ImportPartnersBatch\<close>: one query for the keys of 8 digits, one for the
  keys of 14 digits, and one that reads back the CNPJ of every business found. The result
  is the error of the first query that fails, or the map from keys to business keys and
  the rows of the third query; the statements sent come with both.
\<close>

definition resolve_business_ids ::
  "batch_faults \<Rightarrow> database \<Rightarrow> (string, PartnerData list) gomap \<Rightarrow>
     (error \<times> statement list) + ((string, int list) gomap \<times> (int \<times> string) list \<times> statement list)" where
  "resolve_business_ids f d batch =
     (let baseCNPJs = baseCNPJs_of batch;
          fullCNPJs = fullCNPJs_of batch;
          t1 = (if baseCNPJs = [] then [] else [SelectByBase baseCNPJs])
      in
      (case (if baseCNPJs = [] then Inr []
             else run_query (query_bases_fails f) (scan_bases_fails f) (bases_rows_err f)
                    QueryBasesError (select_by_base d baseCNPJs)) of
         Inl e \<Rightarrow> Inl (e, t1)
       | Inr rows1 \<Rightarrow>
           let t2 = t1 @ (if fullCNPJs = [] then [] else [SelectByCNPJ fullCNPJs]) in
           (case (if fullCNPJs = [] then Inr []
                  else run_query (query_full_fails f) (scan_full_fails f) (full_rows_err f)
                         QueryFullError (select_by_cnpj d fullCNPJs)) of
              Inl e \<Rightarrow> Inl (e, t2)
            | Inr rows2 \<Rightarrow>
                let cnpjToBusinessIDs = add_business_ids rows2 (add_business_ids rows1 []);
                    uniqueBusinessIDs = remdups (concat (map snd cnpjToBusinessIDs));
                    t3 = t2 @ (if uniqueBusinessIDs = [] then []
                               else [SelectByID uniqueBusinessIDs])
                in
                (case (if uniqueBusinessIDs = [] then Inr []
                       else run_query (fetch_cnpjs_fails f) (scan_cnpjs_fails f)
                              (cnpjs_rows_err f) FetchCNPJsError
                              (select_by_id d uniqueBusinessIDs)) of
                   Inl e \<Rightarrow> Inl (e, t3)
                 | Inr rows3 \<Rightarrow> Inr (cnpjToBusinessIDs, rows3, t3)))))"

definition ImportPartnersBatch ::
  "batch_faults \<Rightarrow> database \<Rightarrow> (string, PartnerData list) gomap \<Rightarrow> result" where
  "ImportPartnersBatch f d batch =
     (if batch = [] then \<lparr>ret = None, logs = [], trace = [], final = d\<rparr>
      else
        (case resolve_business_ids f d batch of
           Inl (e, t) \<Rightarrow> import_failed e t d
         | Inr (cnpjToBusinessIDs, businessIDToCNPJ, t) \<Rightarrow>
             (case group_partners cnpjToBusinessIDs businessIDToCNPJ (cnpjToPartners_of batch) of
                (toPartners, toFullCNPJ, l) \<Rightarrow>
                  let r = import_transactions f toFullCNPJ d toPartners
                  in r\<lparr>logs := l @ logs r, trace := t @ trace r\<rparr>)))"

text \<open>The lookup queries among the statements sent.\<close>

fun is_select :: "statement \<Rightarrow> bool" where
  "is_select (SelectByCNPJ cs) = True"
| "is_select (SelectByBase bs) = True"
| "is_select (SelectByID ids) = True"
| "is_select (SelectLike b) = True"
| "is_select _ = False"

text \<open>
  Whether a key of the batch, cleaned, stands for a business: a key of 8 digits for every
  business whose CNPJ starts with it, a key of 14 digits for the business with that CNPJ.
\<close>

definition key_matches :: "string \<Rightarrow> business_row \<Rightarrow> bool" where
  "key_matches k r =
     (length k = 8 \<and> take 8 (cnpj (vals r)) = k \<or> length k = 14 \<and> cnpj (vals r) = k)"

subsection \<open>\<open>TransformPartnersOnly\<close>: grouping the rows into batches\<close>

definition batchSize :: nat where
  "batchSize = 5000"

text \<open>
  The loop that reads the partner rows and sends batches to the workers, for a run in which
  no worker reports an error: the batches sent, in order. Each worker passes a batch it
  receives to \<open>ImportPartnersBatch\<close>. \<open>newPartnerData\<close> (\<open>parse\<close>) is a parameter; a row with fewer than 11
  columns and a row that does not parse are skipped. A row that is taken has a first
  column, since it has at least 11.
\<close>

fun group_rows ::
  "(string list \<Rightarrow> PartnerData option) \<Rightarrow> string list list \<Rightarrow>
     (string, PartnerData list) gomap \<Rightarrow> nat \<Rightarrow> (string, PartnerData list) gomap list" where
  "group_rows parse [] batch currentBatchCount = (if batch \<noteq> [] then [batch] else [])"
| "group_rows parse (row # rows) batch currentBatchCount =
     (if length row < 11 then group_rows parse rows batch currentBatchCount
      else
        (case parse row of
           None \<Rightarrow> group_rows parse rows batch currentBatchCount
         | Some partner \<Rightarrow>
             let batch' = append_at (hd row) [partner] batch;
                 n = currentBatchCount + 1
             in if n \<ge> batchSize then batch' # group_rows parse rows [] 0
                else group_rows parse rows batch' n))"

definition partner_count :: "(string, PartnerData list) gomap \<Rightarrow> nat" where
  "partner_count batch = sum_list (map (\<lambda>(c, ps). length ps) batch)"

subsection \<open>\<open>MetaSave\<close>\<close>

record meta_faults =
  render_fails :: bool
  exec_fails :: bool

text \<open>
  Modelled from the spec: the template \<open>meta_save\<close> is not part of the sources at hand; the
  statement it renders stores the value under the key in the table \<open>meta\<close>.
\<close>

definition exec_meta_save :: "string \<Rightarrow> string \<Rightarrow> database \<Rightarrow> database" where
  "exec_meta_save k v d = d\<lparr>meta := (meta d)(k \<mapsto> v)\<rparr>"

definition MetaSave :: "meta_faults \<Rightarrow> database \<Rightarrow> string \<Rightarrow> string \<Rightarrow> result" where
  "MetaSave f d k v =
     (if length k > 16 then \<lparr>ret = Some MetaKeyTooLong, logs = [], trace = [], final = d\<rparr>
      else if render_fails f then \<lparr>ret = Some RenderError, logs = [], trace = [], final = d\<rparr>
      else if exec_fails f
      then \<lparr>ret = Some ExecError, logs = [], trace = [MetaSaveStmt k v], final = d\<rparr>
      else \<lparr>ret = None, logs = [], trace = [MetaSaveStmt k v], final = exec_meta_save k v d\<rparr>)"

subsection \<open>\<open>ImportPartnersOnly\<close>\<close>

record only_faults =
  o_query_fails :: bool
  o_scan_fails :: bool
  o_rows_err :: bool
  o_get_cnpj_fails :: "int \<Rightarrow> bool"
  o_begin_fails :: "int \<Rightarrow> bool"
  o_set_local_fails :: "int \<Rightarrow> string \<Rightarrow> failure option"
  o_insert_fails :: "int \<Rightarrow> failure option"
  o_single_insert_fails :: "int \<Rightarrow> PartnerData \<Rightarrow> failure option"
  o_commit_fails :: "int \<Rightarrow> bool"

text \<open>
  The fallback after a failed batch insert: the partners are inserted one by one, in the
  same transaction; a partner with more than 11 digits is skipped, a failed insert is
  logged. The result says whether the transaction is aborted afterwards.
\<close>

fun fallback_inserts ::
  "only_faults \<Rightarrow> int \<Rightarrow> string \<Rightarrow> bool \<Rightarrow> PartnerData list \<Rightarrow> database
     \<Rightarrow> database \<times> (level \<times> string) list \<times> statement list \<times> bool" where
  "fallback_inserts f businessID fullCNPJ aborted [] d = (d, [], [], aborted)"
| "fallback_inserts f businessID fullCNPJ aborted (partner # ps) d =
     (if \<not> direct_partner_ok partner
      then (case fallback_inserts f businessID fullCNPJ aborted ps d of
              (d', l, t, a) \<Rightarrow>
                (d', (Warn, ''CPF com mais de 11 digitos, ignorando socio (fallback)'') # l, t, a))
      else
        let row = import_partner_args businessID fullCNPJ partner in
        if stmt_fails aborted (o_single_insert_fails f businessID partner)
        then (case fallback_inserts f businessID fullCNPJ
                     (stmt_aborts aborted (o_single_insert_fails f businessID partner)) ps d of
                (d', l, t, a) \<Rightarrow>
                  (d', (Warn, ''error inserting partner (fallback)'') # l,
                   InsertSocios [row] # t, a))
        else (case fallback_inserts f businessID fullCNPJ aborted ps (insert_socios [row] d) of
                (d', l, t, a) \<Rightarrow> (d', l, InsertSocios [row] # t, a)))"

text \<open>
  The loop over the businesses found: the CNPJ of the business is read back, then its
  partners are written in one transaction. A failure to begin is returned; a business whose
  CNPJ cannot be read, or whose commit fails, is logged and skipped.
\<close>

fun only_transactions ::
  "only_faults \<Rightarrow> PartnerData list \<Rightarrow> database \<Rightarrow> int list \<Rightarrow> result" where
  "only_transactions f ps d [] = \<lparr>ret = None, logs = [], trace = [], final = d\<rparr>"
| "only_transactions f ps d (businessID # rest) =
     (case (if o_get_cnpj_fails f businessID then []
            else map snd (select_by_id d [businessID])) of
        [] \<Rightarrow>
          (let r = only_transactions f ps d rest
           in r\<lparr>logs := (Warn, ''error getting CNPJ for business_id'') # logs r,
                 trace := SelectByID [businessID] # trace r\<rparr>)
      | fullCNPJ # others \<Rightarrow>
          if o_begin_fails f businessID
          then \<lparr>ret = Some BeginError, logs = [], trace = [SelectByID [businessID]], final = d\<rparr>
          else
            (case set_locals (o_set_local_fails f businessID) False tx_set_local_names of
               (a0, ls) \<Rightarrow>
            let l0 = ls @ import_partner_logs ps;
                t0 = SelectByID [businessID] # Begin # map SetLocal tx_set_local_names;
                rows = import_partner_values businessID fullCNPJ ps
            in
            (case (if rows = [] then (d, [], [], a0)
                   else if stmt_fails a0 (o_insert_fails f businessID)
                   then (case fallback_inserts f businessID fullCNPJ
                                (stmt_aborts a0 (o_insert_fails f businessID)) ps d of
                           (d', l, t, a) \<Rightarrow>
                             (d', (Warn, ''error batch inserting partners'') # l,
                              InsertSocios rows # t, a))
                   else (insert_socios rows d, [], [InsertSocios rows], a0)) of
               (d1, l1, t1, a1) \<Rightarrow>
                 (case (if a1 \<or> o_commit_fails f businessID
                        then (d, [(Warn, ''error committing transaction'')], [Commit, Rollback])
                        else (d1, [], [Commit])) of
                    (d2, l2, t2) \<Rightarrow>
                      let r = only_transactions f ps d2 rest
                      in r\<lparr>logs := l0 @ l1 @ l2 @ logs r, trace := t0 @ t1 @ t2 @ trace r\<rparr>))))"

definition ImportPartnersOnly ::
  "only_faults \<Rightarrow> database \<Rightarrow> PartnerData list \<Rightarrow> string \<Rightarrow> result" where
  "ImportPartnersOnly f d ps c =
     (let cleanCNPJ = removeNonDigits c in
      if length cleanCNPJ = 8
      then
        (if o_query_fails f then import_failed QueryBasesError [SelectLike cleanCNPJ] d
         else if select_like d cleanCNPJ \<noteq> [] \<and> o_scan_fails f
         then import_failed ScanError [SelectLike cleanCNPJ] d
         else if o_rows_err f then import_failed RowsError [SelectLike cleanCNPJ] d
         else if select_like d cleanCNPJ = []
         then \<lparr>ret = None,
               logs = [(Warn, ''No businesses found for CNPJ base, skipping partners'')],
               trace = [SelectLike cleanCNPJ], final = d\<rparr>
         else
           let r = only_transactions f ps d (select_like d cleanCNPJ)
           in r\<lparr>trace := SelectLike cleanCNPJ # trace r\<rparr>)
      else if length cleanCNPJ = 14
      then
        (if o_query_fails f then import_failed QueryIDError [SelectByCNPJ [cleanCNPJ]] d
         else
           (case select_by_cnpj d [cleanCNPJ] of
              [] \<Rightarrow>
                \<lparr>ret = None,
                 logs = [(Warn, ''Business not found for CNPJ, skipping partners'')],
                 trace = [SelectByCNPJ [cleanCNPJ]], final = d\<rparr>
            | (businessID, c') # others \<Rightarrow>
                if o_scan_fails f then import_failed QueryIDError [SelectByCNPJ [cleanCNPJ]] d
                else
                  let r = only_transactions f ps d [businessID]
                  in r\<lparr>trace := SelectByCNPJ [cleanCNPJ] # trace r\<rparr>))
      else import_failed InvalidCNPJLength [] d)"

subsection \<open>Characters and bytes\<close>

text \<open>
  A Go string is a sequence of bytes, and \<open>len\<close> and the slice \<open>s[:n]\<close> count bytes. In a
  UTF-8 text a character takes one to four bytes, of which all but the first are
  continuation bytes (\<open>0x80\<close> to \<open>0xBF\<close>): the characters of a text are counted by the
  bytes that are not continuation bytes.
\<close>

definition utf8_continuation :: "char \<Rightarrow> bool" where
  "utf8_continuation c = (128 \<le> (of_char c :: nat) \<and> (of_char c :: nat) < 192)"

definition utf8_characters :: "string \<Rightarrow> nat" where
  "utf8_characters s = length (filter (\<lambda>c. \<not> utf8_continuation c) s)"

section \<open>Concrete inputs\<close>

text \<open>
  Two rows of the partner file for the company base \<open>12345678\<close>. They differ in their
  last two columns (\<open>00\<close>, \<open>5\<close> against \<open>0\<close>, \<open>05\<close>) and have the same concatenation.
\<close>

definition partner_row_a :: "string list" where
  "partner_row_a = [''12345678'', ''2'', ''ALICE'', ''***123456**'', ''49'', ''20200101'', '''',
                    ''***000000**'', '''', ''00'', ''5'']"

definition partner_row_b :: "string list" where
  "partner_row_b = [''12345678'', ''2'', ''ALICE'', ''***123456**'', ''49'', ''20200101'', '''',
                    ''***000000**'', '''', ''0'', ''05'']"

text \<open>A third row for the same base, with another partner.\<close>

definition partner_row_c :: "string list" where
  "partner_row_c = [''12345678'', ''2'', ''BOB'', ''***654321**'', ''22'', ''20210315'', '''',
                    ''***000000**'', '''', ''00'', ''4'']"

text \<open>Decoders that keep the columns of a row, separated by semicolons.\<close>

definition join_semicolon :: "string list \<Rightarrow> string option" where
  "join_semicolon r = Some (concat (map (\<lambda>f. f @ '';'') r))"

definition example_loaders :: loaders where
  "example_loaders = \<lparr>loadPartnerRow = join_semicolon, loadBaseRow = join_semicolon,
     loadSimpleTaxesRow = join_semicolon, loadTaxRow = join_semicolon\<rparr>"

definition no_set_failure :: "item \<Rightarrow> bool" where
  "no_set_failure i = False"

text \<open>The defaults of the store's library, as the comments of \<open>newBadgerStorage\<close> give them.\<close>

definition example_DefaultOptions :: "string \<Rightarrow> Options" where
  "example_DefaultOptions d = \<lparr>Dir = d, ReadOnly = False, NumMemtables = 5,
     NumLevelZeroTables = 5, NumLevelZeroTablesStall = 10, ValueLogMaxEntries = 1000000,
     ValueLogFileSize = 1073741824, MemTableSize = 67108864, Logger = defaultLogger\<rparr>"

definition no_open_failure :: "Options \<Rightarrow> bool" where
  "no_open_failure opt = False"

subsection \<open>Companies, partners and tables\<close>

definition company0 :: Company where
  "company0 = \<lparr>CNPJ = [], RazaoSocial = [], NomeFantasia = [], SituacaoCadastral = None,
     CNAEFiscal = None, CNAEFiscalDescricao = None, CNAESecundarios = [], CapitalSocial = None,
     CodigoNaturezaJuridica = None, QualificacaoDoResponsavel = None, CodigoPorte = None,
     DescricaoMatrizFilial = None, IdentificadorMatrizFilial = None,
     DataSituacaoCadastral = None, MotivoSituacaoCadastral = None, DataInicioAtividade = None,
     Email = None, CEP = [], Numero = [], Logradouro = [], Bairro = [], Municipio = None,
     UF = [], DescricaoTipoDeLogradouro = [], Complemento = [], Telefone1 = [], Telefone2 = [],
     Fax = [], QuadroSocietario = []\<rparr>"

definition alice :: PartnerData where
  "alice = \<lparr>NomeSocio = ''ALICE'', CNPJCPFDoSocio = ''***123456**'',
     QualificaoSocio = Some ''Socio-Administrador'', DataEntradaSociedade = None\<rparr>"

text \<open>A partner that is a company: its tax ID has 14 digits.\<close>

definition holding :: PartnerData where
  "holding = \<lparr>NomeSocio = ''HOLDING SA'', CNPJCPFDoSocio = ''11222333000144'',
     QualificaoSocio = Some ''Socio Pessoa Juridica'', DataEntradaSociedade = None\<rparr>"

definition acme :: Company where
  "acme = company0\<lparr>CNPJ := ''12.345.678/0001-99'', RazaoSocial := ''ACME LTDA'', UF := ''SP'',
     QuadroSocietario := [alice, holding]\<rparr>"

text \<open>A company whose CNPJ has three digits.\<close>

definition short_company :: Company where
  "short_company = company0\<lparr>CNPJ := ''123'', RazaoSocial := ''SHORT''\<rparr>"

definition no_faults :: direct_faults where
  "no_faults = \<lparr>begin_fails = False, set_local_fails = (\<lambda>n. None),
     insert_businesses_fails = False, scan_returned_fails = (\<lambda>c. False),
     returned_rows_err = None, select_existing_fails = None,
     scan_existing_fails = (\<lambda>c. False), existing_rows_err = None,
     insert_partners_fails = None, commit_fails = False, rollback_fails = False\<rparr>"

definition empty_db :: database where
  "empty_db = \<lparr>business = [], socios_cnpj = [], business_id_seq = 1, meta = Map.empty\<rparr>"

text \<open>A table that already holds the venue of \<open>acme\<close>, under an older name, written at time 100.\<close>

definition acme_old :: business_row where
  "acme_old = \<lparr>b_id = 7,
     vals = (business_args acme)\<lparr>razao_social := ''ACME ANTIGA''\<rparr>,
     updated_at = 100, created_at = 100\<rparr>"

definition db_with_acme :: database where
  "db_with_acme = \<lparr>business = [acme_old], socios_cnpj = [], business_id_seq = 8, meta = Map.empty\<rparr>"

definition no_batch_faults :: batch_faults where
  "no_batch_faults = \<lparr>query_bases_fails = False, scan_bases_fails = False,
     bases_rows_err = False, query_full_fails = False, scan_full_fails = False,
     full_rows_err = False, fetch_cnpjs_fails = False, scan_cnpjs_fails = False,
     cnpjs_rows_err = False, tx_begin_fails = (\<lambda>i. False),
     tx_set_local_fails = (\<lambda>i n. None), tx_insert_fails = (\<lambda>i. False),
     tx_commit_fails = (\<lambda>i. False)\<rparr>"

definition no_meta_faults :: meta_faults where
  "no_meta_faults = \<lparr>render_fails = False, exec_fails = False\<rparr>"

definition no_only_faults :: only_faults where
  "no_only_faults = \<lparr>o_query_fails = False, o_scan_fails = False, o_rows_err = False,
     o_get_cnpj_fails = (\<lambda>i. False), o_begin_fails = (\<lambda>i. False),
     o_set_local_fails = (\<lambda>i n. None), o_insert_fails = (\<lambda>i. None),
     o_single_insert_fails = (\<lambda>i p. None), o_commit_fails = (\<lambda>i. False)\<rparr>"

text \<open>A partner whose name has 130 characters, and the venue of \<open>acme\<close> as inserted at time 100.\<close>

definition long_name :: string where
  "long_name = replicate 130 (CHR ''A'')"

definition long_partner :: PartnerData where
  "long_partner = \<lparr>NomeSocio = long_name, CNPJCPFDoSocio = ''***123456**'',
     QualificaoSocio = None, DataEntradaSociedade = None\<rparr>"

text \<open>
  A partner whose name has 111 characters in 122 bytes: 100 letters \<open>A\<close> and 11 letters
  \<open>e\<close> with an acute accent, which UTF-8 writes as the two bytes \<open>0xC3 0xA9\<close>.
\<close>

definition accented_name :: string where
  "accented_name = replicate 100 (CHR ''A'') @ concat (replicate 11 [CHR 0xC3, CHR 0xA9])"

definition accented_partner :: PartnerData where
  "accented_partner = \<lparr>NomeSocio = accented_name, CNPJCPFDoSocio = ''***123456**'',
     QualificaoSocio = None, DataEntradaSociedade = None\<rparr>"

definition acme_row :: business_row where
  "acme_row = \<lparr>b_id = 1, vals = business_args acme, updated_at = 100, created_at = 100\<rparr>"

definition db_acme :: database where
  "db_acme = \<lparr>business = [acme_row], socios_cnpj = [], business_id_seq = 2, meta = Map.empty\<rparr>"

text \<open>A second establishment of the same company, and a table with both.\<close>

definition acme_branch_row :: business_row where
  "acme_branch_row = \<lparr>b_id = 2, vals = (business_args acme)\<lparr>cnpj := ''12345678000270''\<rparr>,
     updated_at = 100, created_at = 100\<rparr>"

definition db_two :: database where
  "db_two = \<lparr>business = [acme_row, acme_branch_row], socios_cnpj = [], business_id_seq = 3,
     meta = Map.empty\<rparr>"

text \<open>
  Database failures: a commit that fails for every business; an insert of the partners
  that fails before it reaches the server, and one that the server refuses; an insert of
  the partners of business 1 that fails; a transaction that cannot be begun; a lookup that
  fails.
\<close>

definition commit_failure :: batch_faults where
  "commit_failure = no_batch_faults\<lparr>tx_commit_fails := (\<lambda>i. True)\<rparr>"

definition partners_insert_failure :: direct_faults where
  "partners_insert_failure = no_faults\<lparr>insert_partners_fails := Some KeepsTransaction\<rparr>"

definition partners_insert_refused :: direct_faults where
  "partners_insert_refused = no_faults\<lparr>insert_partners_fails := Some AbortsTransaction\<rparr>"

definition insert_failure_for_1 :: batch_faults where
  "insert_failure_for_1 = no_batch_faults\<lparr>tx_insert_fails := (\<lambda>i. i = 1)\<rparr>"

definition begin_failure :: batch_faults where
  "begin_failure = no_batch_faults\<lparr>tx_begin_fails := (\<lambda>i. True)\<rparr>"

definition lookup_failure :: batch_faults where
  "lookup_failure = no_batch_faults\<lparr>query_bases_fails := True\<rparr>"

definition venue_commit_failure :: direct_faults where
  "venue_commit_failure = no_faults\<lparr>commit_fails := True\<rparr>"

text \<open>A stand-in for \<open>newPartnerData\<close>: name and tax ID are the third and fourth column.\<close>

definition example_parse :: "string list \<Rightarrow> PartnerData option" where
  "example_parse r = Some \<lparr>NomeSocio = r ! 2, CNPJCPFDoSocio = r ! 3, QualificaoSocio = None,
     DataEntradaSociedade = None\<rparr>"

section \<open>Properties of the stage keys\<close>

lemma hexdigit_inj: "a < 16 \<Longrightarrow> b < 16 \<Longrightarrow> hexdigit a = hexdigit b \<Longrightarrow> a = b"
proof -
  assume a: "a < 16" and b: "b < 16" and e: "hexdigit a = hexdigit b"
  have d: "distinct ''0123456789abcdef''" by simp
  have l: "length ''0123456789abcdef'' = 16" by simp
  from a b l have "a < length ''0123456789abcdef''" "b < length ''0123456789abcdef''"
    by simp_all
  with d e show "a = b"
    unfolding hexdigit_def by (simp only: nth_eq_iff_index_eq)
qed

lemma hex_byte_inj: "hex_byte c = hex_byte d \<Longrightarrow> c = d"
proof -
  assume e: "hex_byte c = hex_byte d"
  define m :: nat where "m = of_char c"
  define n :: nat where "n = of_char d"
  have lc: "m < 16 * 16" and ld: "n < 16 * 16"
    unfolding m_def n_def using nat_of_char_less_256 by simp_all
  from e have h1: "hexdigit (m div 16) = hexdigit (n div 16)"
    and h2: "hexdigit (m mod 16) = hexdigit (n mod 16)"
    unfolding m_def n_def hex_byte_def by simp_all
  have "m div 16 < 16" "n div 16 < 16"
    using lc ld by (simp_all only: less_mult_imp_div_less)
  with h1 have q: "m div 16 = n div 16" by (rule hexdigit_inj[rotated 2])
  have "m mod 16 < 16" "n mod 16 < 16" by simp_all
  with h2 have r: "m mod 16 = n mod 16" by (rule hexdigit_inj[rotated 2])
  from q r have "m = n" by (metis div_mult_mod_eq)
  then show "c = d" unfolding m_def n_def by (simp only: of_char_eq_iff)
qed

lemma hex_EncodeToString_inj: "hex_EncodeToString xs = hex_EncodeToString ys \<Longrightarrow> xs = ys"
proof (induction xs arbitrary: ys)
  case Nil
  then show ?case by (cases ys) (simp_all add: hex_EncodeToString_def hex_byte_def)
next
  case (Cons x xs)
  show ?case
  proof (cases ys)
    case Nil
    with Cons.prems show ?thesis by (simp add: hex_EncodeToString_def hex_byte_def)
  next
    case (Cons y ys')
    with Cons.prems have e: "hex_byte x @ hex_EncodeToString xs = hex_byte y @ hex_EncodeToString ys'"
      by (simp add: hex_EncodeToString_def)
    have "length (hex_byte x) = length (hex_byte y)" by (simp add: hex_byte_def)
    with e have "hex_byte x = hex_byte y" and "hex_EncodeToString xs = hex_EncodeToString ys'"
      by simp_all
    with Cons.IH hex_byte_inj Cons show ?thesis by blast
  qed
qed

lemma length_hex_EncodeToString: "length (hex_EncodeToString bs) = 2 * length bs"
  by (induction bs) (simp_all add: hex_EncodeToString_def hex_byte_def)

lemma length_md5_checksum: "length (md5_checksum m) = 16"
  by (simp add: md5_checksum_def Let_def word_le_bytes_def split: prod.split)

text \<open>
  What \<open>checksumFor\<close> computes: nothing is ever written to the digest, so the row takes
  no part in the hash. The result is the hex form of the row's own bytes, followed by the
  hex form of the MD5 checksum of the empty input.
\<close>

lemma checksumFor_eq:
  "checksumFor r = hex_EncodeToString (concat r) @ hex_EncodeToString (md5_checksum [])"
  by (simp add: checksumFor_def md5_Sum_def md5_New_def hex_EncodeToString_def)

lemma checksumFor_inj: "checksumFor r1 = checksumFor r2 \<Longrightarrow> concat r1 = concat r2"
  by (simp add: checksumFor_eq hex_EncodeToString_inj)

lemma newKVItem_key:
  assumes "newKVItem l s r = Inr i" and "isAccumulative s"
  shows "\<exists>n. row_id s r = Inr n \<and>
     item_key i = (case s of partners \<Rightarrow> keyForPartners n | simpleTaxes \<Rightarrow> keyForSimpleTaxes n
                   | _ \<Rightarrow> keyForTaxRegime n) @ '':'' @ checksumFor r"
  using assms
  by (cases s) (auto simp: newKVItem_def Let_def split: sum.splits option.splits)

lemma hex_row_a:
  "hex_EncodeToString (concat partner_row_a) =
     ''313233343536373832414c4943452a2a2a3132333435362a2a343932303230303130312a2a2a3030303030302a2a303035''"
  by (simp add: partner_row_a_def hex_EncodeToString_def hex_byte_def hexdigit_def)

lemma newKVItem_row_a:
  "newKVItem example_loaders partners partner_row_a =
     Inr \<lparr>item_key = ''partner:12345678:'' @ hex_EncodeToString (concat partner_row_a)
                       @ hex_EncodeToString (md5_checksum []),
          item_value = ''12345678;2;ALICE;***123456**;49;20200101;;***000000**;;00;5;'',
          item_kind = partners\<rparr>"
  by (simp add: partner_row_a_def newKVItem_def checksumFor_eq example_loaders_def
      join_semicolon_def keyForPartners_def)

lemma newKVItem_row_b:
  "newKVItem example_loaders partners partner_row_b =
     Inr \<lparr>item_key = ''partner:12345678:'' @ hex_EncodeToString (concat partner_row_a)
                       @ hex_EncodeToString (md5_checksum []),
          item_value = ''12345678;2;ALICE;***123456**;49;20200101;;***000000**;;0;05;'',
          item_kind = partners\<rparr>"
  by (simp add: partner_row_a_def partner_row_b_def newKVItem_def checksumFor_eq
      example_loaders_def join_semicolon_def keyForPartners_def)

text \<open>
  C3. The claim: for a row of an accumulative kind, the stage key is the kind prefix, the
  ID, a colon and the MD5 hash of the row's concatenated fields. At the partner row
  \<open>partner_row_a\<close> the key that \<open>newKVItem\<close> builds is instead the prefix and ID followed
  by the hex form of the 49 bytes of the row themselves and of the checksum of the empty
  input: 147 characters, where the key of the claim has 49.
\<close>

theorem newKVItem_key_is_not_md5_of_row:
  "map_sum id item_key (newKVItem example_loaders partners partner_row_a) =
     Inr (''partner:12345678:''
          @ ''313233343536373832414c4943452a2a2a3132333435362a2a343932303230303130312a2a2a3030303030302a2a303035''
          @ hex_EncodeToString (md5_checksum []))
   \<and> map_sum id item_key (newKVItem example_loaders partners partner_row_a) \<noteq>
     Inr (''partner:12345678:'' @ hex_EncodeToString (md5_checksum (concat partner_row_a)))
   \<and> map_sum id (length \<circ> item_key) (newKVItem example_loaders partners partner_row_a) = Inr 147
   \<and> length (''partner:12345678:'' @ hex_EncodeToString (md5_checksum (concat partner_row_a))) = 49"
proof -
  let ?h = "hex_EncodeToString (concat partner_row_a)"
  let ?e = "hex_EncodeToString (md5_checksum [])"
  let ?c = "hex_EncodeToString (md5_checksum (concat partner_row_a))"
  have la: "length ?h = 98"
    by (simp add: length_hex_EncodeToString partner_row_a_def)
  have le: "length ?e = 32" and lc: "length ?c = 32"
    by (simp_all add: length_hex_EncodeToString length_md5_checksum)
  have ne: "?h @ ?e \<noteq> ?c"
  proof
    assume "?h @ ?e = ?c"
    then have "length (?h @ ?e) = length ?c" by (rule arg_cong)
    with la le lc show False by simp
  qed
  have k: "map_sum id item_key (newKVItem example_loaders partners partner_row_a) =
      Inr (''partner:12345678:'' @ ?h @ ?e)"
    by (simp add: newKVItem_row_a)
  have c1: "map_sum id item_key (newKVItem example_loaders partners partner_row_a) =
     Inr (''partner:12345678:''
          @ ''313233343536373832414c4943452a2a2a3132333435362a2a343932303230303130312a2a2a3030303030302a2a303035''
          @ hex_EncodeToString (md5_checksum []))"
    unfolding k hex_row_a ..
  have c2: "map_sum id item_key (newKVItem example_loaders partners partner_row_a) \<noteq>
     Inr (''partner:12345678:'' @ ?c)"
    unfolding k using ne by simp
  have c3: "map_sum id (length \<circ> item_key) (newKVItem example_loaders partners partner_row_a) = Inr 147"
    unfolding newKVItem_row_a using la le by simp
  have c4: "length (''partner:12345678:'' @ ?c) = 49"
    using lc by simp
  from c1 c2 c3 c4 show ?thesis by (intro conjI)
qed

text \<open>
  C6 as claimed: two rows of an accumulative kind that share the ID and differ in a field
  get distinct keys, and neither staged value overwrites the other. The rows
  \<open>partner_row_a\<close> and \<open>partner_row_b\<close> share the ID and differ in two fields, yet get the
  same key; written in one chunk, the store keeps the value of the second alone.
\<close>

theorem rows_differing_in_a_field_share_a_key:
  "partner_row_a \<noteq> partner_row_b
   \<and> row_id partners partner_row_a = row_id partners partner_row_b
   \<and> map_sum id item_key (newKVItem example_loaders partners partner_row_a) =
       map_sum id item_key (newKVItem example_loaders partners partner_row_b)
   \<and> map_sum id item_value (newKVItem example_loaders partners partner_row_a) \<noteq>
       map_sum id item_value (newKVItem example_loaders partners partner_row_b)
   \<and> (case (newKVItem example_loaders partners partner_row_a,
             newKVItem example_loaders partners partner_row_b) of
         (Inr i1, Inr i2) \<Rightarrow>
           (case loadChunk no_set_failure Map.empty [i1, i2] of
              Inr m \<Rightarrow> m (item_key i1) = Some (item_value i2) \<and> dom m = {item_key i1}
            | Inl e \<Rightarrow> False)
       | _ \<Rightarrow> False)"
  by (simp add: newKVItem_row_a newKVItem_row_b loadChunk_def tx_Set_def no_set_failure_def)
     (simp add: partner_row_a_def partner_row_b_def)

text \<open>
  C6, amended: two rows of an accumulative kind that share the ID and whose concatenated
  fields differ are staged under distinct keys; written in one chunk, each key holds its own
  row's value afterwards.
\<close>

theorem rows_with_distinct_concatenation_coexist:
  assumes "isAccumulative s"
    and "newKVItem l s r1 = Inr i1" and "newKVItem l s r2 = Inr i2"
    and "row_id s r1 = row_id s r2"
    and "concat r1 \<noteq> concat r2"
  shows "item_key i1 \<noteq> item_key i2
    \<and> (\<exists>m'. loadChunk no_set_failure m [i1, i2] = Inr m'
          \<and> m' (item_key i1) = Some (item_value i1) \<and> m' (item_key i2) = Some (item_value i2))"
proof -
  from newKVItem_key [OF assms(2) assms(1)] newKVItem_key [OF assms(3) assms(1)] assms(4)
  obtain p where k1: "item_key i1 = p @ '':'' @ checksumFor r1"
    and k2: "item_key i2 = p @ '':'' @ checksumFor r2"
    by auto
  from assms(5) checksumFor_inj have "checksumFor r1 \<noteq> checksumFor r2" by blast
  with k1 k2 have d: "item_key i1 \<noteq> item_key i2" by simp
  then show ?thesis
    by (simp add: loadChunk_def no_set_failure_def tx_Set_def)
qed

theorem rows_with_distinct_concatenation_coexist_witness:
  "isAccumulative partners
   \<and> row_id partners partner_row_a = row_id partners partner_row_c
   \<and> concat partner_row_a \<noteq> concat partner_row_c
   \<and> (case (newKVItem example_loaders partners partner_row_a,
             newKVItem example_loaders partners partner_row_c) of
         (Inr i1, Inr i2) \<Rightarrow>
           item_key i1 \<noteq> item_key i2
           \<and> (\<exists>m'. loadChunk no_set_failure Map.empty [i1, i2] = Inr m'
                 \<and> m' (item_key i1) = Some (item_value i1)
                 \<and> m' (item_key i2) = Some (item_value i2))
       | _ \<Rightarrow> False)"
proof -
  obtain i1 where a: "newKVItem example_loaders partners partner_row_a = Inr i1"
    by (simp add: newKVItem_row_a)
  obtain i2 where c: "newKVItem example_loaders partners partner_row_c = Inr i2"
    by (simp add: newKVItem_def example_loaders_def join_semicolon_def partner_row_c_def)
  have h1: "isAccumulative partners" by simp
  have h2: "row_id partners partner_row_a = row_id partners partner_row_c"
    by (simp add: partner_row_a_def partner_row_c_def)
  have h3: "concat partner_row_a \<noteq> concat partner_row_c"
    by (simp add: partner_row_a_def partner_row_c_def)
  from rows_with_distinct_concatenation_coexist [OF h1 a c h2 h3, of Map.empty] h1 h2 h3 a c
  show ?thesis by simp
qed

section \<open>Properties of the store's options\<close>

text \<open>
  C8. Whenever \<open>newBadgerStorage\<close> opens the store, for writing or read-only, the options
  it opens it with have 1 memtable, a level-0 stall threshold of 2, a value-log file size
  of 64 MiB, a memtable size of 16 MiB and at most 100000 entries per value-log file,
  whatever the library's defaults are.
\<close>

theorem newBadgerStorage_tuning:
  assumes "newBadgerStorage dflt open_fails goos debug dir ro = Inr st"
  shows "NumMemtables (Opts (db st)) = 1
    \<and> NumLevelZeroTablesStall (Opts (db st)) = 2
    \<and> unat (ValueLogFileSize (Opts (db st))) = 64 * 1024 * 1024
    \<and> unat (MemTableSize (Opts (db st))) = 16 * 1024 * 1024
    \<and> unat (ValueLogMaxEntries (Opts (db st))) = 100000"
  using assms
  by (auto simp: newBadgerStorage_def Let_def split: if_splits)

theorem newBadgerStorage_tuning_witness:
  "(\<exists>st. newBadgerStorage example_DefaultOptions no_open_failure ''linux'' [] ''/tmp/kv'' True = Inr st
     \<and> ReadOnly (Opts (db st))
     \<and> NumMemtables (Opts (db st)) = 1
     \<and> NumLevelZeroTablesStall (Opts (db st)) = 2
     \<and> unat (ValueLogFileSize (Opts (db st))) = 67108864
     \<and> unat (MemTableSize (Opts (db st))) = 16777216
     \<and> unat (ValueLogMaxEntries (Opts (db st))) = 100000)
   \<and> (\<exists>st. newBadgerStorage example_DefaultOptions no_open_failure ''linux'' [] ''/tmp/kv'' False = Inr st
     \<and> \<not> ReadOnly (Opts (db st))
     \<and> NumMemtables (Opts (db st)) = 1)"
proof -
  obtain st where a: "newBadgerStorage example_DefaultOptions no_open_failure ''linux'' [] ''/tmp/kv'' True = Inr st"
    by (simp add: newBadgerStorage_def no_open_failure_def)
  obtain st' where b: "newBadgerStorage example_DefaultOptions no_open_failure ''linux'' [] ''/tmp/kv'' False = Inr st'"
    by (simp add: newBadgerStorage_def no_open_failure_def)
  have ra: "ReadOnly (Opts (db st))" using a
    by (auto simp: newBadgerStorage_def no_open_failure_def example_DefaultOptions_def)
  have rb: "\<not> ReadOnly (Opts (db st'))" using b
    by (auto simp: newBadgerStorage_def no_open_failure_def example_DefaultOptions_def)
  from newBadgerStorage_tuning [OF a] newBadgerStorage_tuning [OF b] a b ra rb
  show ?thesis by simp
qed

section \<open>Properties of the structured batch writer\<close>

lemma ib_prefix: "\<exists>new. business (fst (insert_businesses now vs d)) = business d @ new"
proof (induction vs arbitrary: d)
  case Nil
  then show ?case by simp
next
  case (Cons v vs)
  let ?d0 = "d\<lparr>business_id_seq := business_id_seq d + 1\<rparr>"
  let ?d1 = "?d0\<lparr>business := business d @
      [\<lparr>b_id = business_id_seq d, vals = v, updated_at = now, created_at = now\<rparr>]\<rparr>"
  from Cons.IH [of ?d0] obtain n0
    where a: "business (fst (insert_businesses now vs ?d0)) = business d @ n0" by auto
  from Cons.IH [of ?d1] obtain n1
    where b: "business (fst (insert_businesses now vs ?d1)) = business d @ n1" by auto
  show ?case using a b by (simp add: Let_def case_prod_beta)
qed

lemma ib_other [simp]:
  "socios_cnpj (fst (insert_businesses now vs d)) = socios_cnpj d"
  "meta (fst (insert_businesses now vs d)) = meta d"
  by (induction vs arbitrary: d) (simp_all add: Let_def case_prod_beta)

lemma in_cnpjs_iff:
  "c \<in> business_cnpjs d \<longleftrightarrow> list_ex (\<lambda>r. cnpj (vals r) = c) (business d)"
  by (force simp: business_cnpjs_def list_ex_iff image_iff)

lemma ib_noop:
  "\<forall>v\<in>set vs. cnpj v \<in> business_cnpjs d \<Longrightarrow>
     business (fst (insert_businesses now vs d)) = business d \<and> snd (insert_businesses now vs d) = []"
proof (induction vs arbitrary: d)
  case Nil
  then show ?case by simp
next
  case (Cons v vs)
  let ?d0 = "d\<lparr>business_id_seq := business_id_seq d + 1\<rparr>"
  from Cons.prems have ex: "list_ex (\<lambda>r. cnpj (vals r) = cnpj v) (business d)"
    by (simp add: in_cnpjs_iff)
  from Cons.prems have "\<forall>v\<in>set vs. cnpj v \<in> business_cnpjs ?d0"
    by (simp add: business_cnpjs_def)
  from Cons.IH [OF this] ex show ?case by (simp add: Let_def)
qed

lemma ib_cnpjs:
  "business_cnpjs (fst (insert_businesses now vs d)) = business_cnpjs d \<union> cnpj ` set vs"
proof (induction vs arbitrary: d)
  case Nil
  then show ?case by simp
next
  case (Cons v vs)
  let ?d0 = "d\<lparr>business_id_seq := business_id_seq d + 1\<rparr>"
  let ?d1 = "?d0\<lparr>business := business d @
      [\<lparr>b_id = business_id_seq d, vals = v, updated_at = now, created_at = now\<rparr>]\<rparr>"
  have a: "business_cnpjs ?d0 = business_cnpjs d" by (simp add: business_cnpjs_def)
  have b: "business_cnpjs ?d1 = insert (cnpj v) (business_cnpjs d)"
    by (simp add: business_cnpjs_def)
  show ?case
  proof (cases "list_ex (\<lambda>r. cnpj (vals r) = cnpj v) (business d)")
    case True
    then have "cnpj v \<in> business_cnpjs d" by (simp add: in_cnpjs_iff)
    with True Cons.IH [of ?d0] a show ?thesis by (auto simp: Let_def)
  next
    case False
    with Cons.IH [of ?d1] b show ?thesis by (auto simp: Let_def split: prod.split)
  qed
qed

lemma is_other [simp]:
  "business (insert_socios ps d) = business d"
  "meta (insert_socios ps d) = meta d"
  "business_id_seq (insert_socios ps d) = business_id_seq d"
  by (induction ps arbitrary: d) simp_all

lemma is_prefix: "\<exists>new. socios_cnpj (insert_socios ps d) = socios_cnpj d @ new \<and> set new \<subseteq> set ps"
proof (induction ps arbitrary: d)
  case Nil
  then show ?case by simp
next
  case (Cons p ps)
  let ?d1 = "d\<lparr>socios_cnpj := socios_cnpj d @ [p]\<rparr>"
  from Cons.IH [of d] obtain n0 where a: "socios_cnpj (insert_socios ps d) = socios_cnpj d @ n0"
    and a': "set n0 \<subseteq> set ps" by auto
  from Cons.IH [of ?d1] obtain n1
    where b: "socios_cnpj (insert_socios ps ?d1) = socios_cnpj d @ p # n1" and b': "set n1 \<subseteq> set ps"
    by auto
  show ?case using a a' b b' by auto
qed

lemma stmt_none [simp]: "\<not> stmt_fails False None" "\<not> stmt_aborts False None"
  by (simp_all add: stmt_fails_def stmt_aborts_def)

lemma set_locals_none [simp]: "set_locals (\<lambda>n. None) False ns = (False, [])"
  by (induction ns) (simp_all add: stmt_aborts_def stmt_fails_def)

lemma direct_businesses_proj:
  "fst (direct_businesses f now d vs a0) =
     (if vs = [] then d else fst (insert_businesses now vs d))"
  "fst (snd (direct_businesses f now d vs a0)) =
     (if vs = [] then Map.empty else direct_id_map f now d vs)"
  "snd (snd (snd (snd (direct_businesses f now d vs a0)))) =
     (if vs = [] then a0 else direct_lookup_aborts f now d vs)"
  by (simp_all add: direct_businesses_def direct_id_map_def direct_lookup_aborts_def
      case_prod_beta)

lemma direct_partners_proj:
  "fst (direct_partners f d1 ps a1) =
     (if ps = [] \<or> stmt_fails a1 (insert_partners_fails f) then d1 else insert_socios ps d1)"
  "snd (snd (snd (direct_partners f d1 ps a1))) =
     (if ps = [] then a1 else stmt_aborts a1 (insert_partners_fails f))"
  by (auto simp: direct_partners_def stmt_fails_def stmt_aborts_def)

lemma direct_commit_proj:
  "ret (direct_commit f d d2 a l t) = (if a \<or> commit_fails f then Some CommitError else None)"
  "final (direct_commit f d d2 a l t) = (if a \<or> commit_fails f then d else d2)"
  by (simp_all add: direct_commit_def)

lemma partner_values_empty [simp]: "batch_partner_values Map.empty batch = []"
  by (simp add: batch_partner_values_def company_partner_values_def company_has_id_def)

lemma direct_ret:
  "ret (CreateCompaniesStructuredDirect f now d batch) =
     (if begin_fails f then Some BeginError
      else if batch_values batch \<noteq> []
              \<and> (fst (set_locals (set_local_fails f) False set_local_names)
                   \<or> insert_businesses_fails f)
      then Some InsertBusinessesError
      else if direct_aborted f now d batch \<or> commit_fails f then Some CommitError
      else None)"
  unfolding CreateCompaniesStructuredDirect_def direct_aborted_def Let_def case_prod_beta
  by (simp add: direct_businesses_proj direct_partners_proj direct_commit_proj
      partner_values_empty)

lemma direct_final:
  "final (CreateCompaniesStructuredDirect f now d batch) =
     (if ret (CreateCompaniesStructuredDirect f now d batch) \<noteq> None then d
      else if batch_values batch = [] then d
      else if batch_partner_values (direct_id_map f now d (batch_values batch)) batch = []
              \<or> insert_partners_fails f \<noteq> None
      then fst (insert_businesses now (batch_values batch) d)
      else insert_socios (batch_partner_values (direct_id_map f now d (batch_values batch)) batch)
             (fst (insert_businesses now (batch_values batch) d)))"
  unfolding direct_ret
  unfolding CreateCompaniesStructuredDirect_def direct_aborted_def Let_def case_prod_beta
  by (simp add: direct_businesses_proj direct_partners_proj direct_commit_proj
      stmt_fails_def stmt_aborts_def)

lemma direct_businesses_trace:
  "filter is_InsertBusinesses (fst (snd (snd (snd (direct_businesses f now d vs a0))))) =
     (if vs = [] then [] else [InsertBusinesses vs])"
  by (simp add: direct_businesses_def resolve_existing_def case_prod_beta Let_def)

lemma direct_partners_trace:
  "filter is_InsertBusinesses (fst (snd (snd (direct_partners f d1 ps a1)))) = []"
  by (simp add: direct_partners_def)

lemma direct_commit_trace:
  "trace (direct_commit f d d2 a l t) = t @ (if a \<or> commit_fails f then [Commit, Rollback] else [Commit])"
  by (simp add: direct_commit_def)

lemma direct_trace_inserts:
  "filter is_InsertBusinesses (trace (CreateCompaniesStructuredDirect f now d batch)) =
     (if begin_fails f \<or> batch_values batch = [] then []
      else [InsertBusinesses (batch_values batch)])"
  unfolding CreateCompaniesStructuredDirect_def Let_def case_prod_beta
  by (simp add: direct_businesses_trace direct_partners_trace direct_commit_trace
      set_local_names_def)

lemma direct_business:
  "business (final (CreateCompaniesStructuredDirect f now d batch)) =
     (if ret (CreateCompaniesStructuredDirect f now d batch) = None \<and> batch_values batch \<noteq> []
      then business (fst (insert_businesses now (batch_values batch) d))
      else business d)"
  by (simp add: direct_final)

lemma direct_prefix:
  "\<exists>new. business (final (CreateCompaniesStructuredDirect f now d batch)) = business d @ new"
  using ib_prefix [of now "batch_values batch" d] by (simp add: direct_business)

lemma acme_values: "batch_values [acme] = [business_args acme]"
  by (simp add: batch_values_def valid_cnpj_def acme_def removeNonDigits_def isDigit_def)

lemma acme_cnpj: "cnpj (business_args acme) = ''12345678000199''"
  by (simp add: business_args_def acme_def removeNonDigits_def isDigit_def)

lemma acme_known: "\<forall>v\<in>set (batch_values [acme]). cnpj v \<in> business_cnpjs db_with_acme"
  by (simp add: acme_values business_cnpjs_def db_with_acme_def acme_old_def)

lemma no_faults_simps [simp]:
  "\<not> begin_fails no_faults" "set_local_fails no_faults = (\<lambda>n. None)"
  "\<not> insert_businesses_fails no_faults" "returned_rows_err no_faults = None"
  "select_existing_fails no_faults = None" "existing_rows_err no_faults = None"
  "insert_partners_fails no_faults = None" "\<not> commit_fails no_faults"
  "\<not> rollback_fails no_faults" "\<not> scan_returned_fails no_faults c"
  "\<not> scan_existing_fails no_faults c"
  by (simp_all add: no_faults_def)

lemma resolve_existing_aborted:
  "snd (snd (snd (resolve_existing no_faults False d ms m))) = False"
  by (simp add: resolve_existing_def stmt_fails_def stmt_aborts_def Let_def)

lemma no_faults_lookup [simp]: "\<not> direct_lookup_aborts no_faults now d vs"
  by (simp add: direct_lookup_aborts_def case_prod_beta stmt_aborts_def
      resolve_existing_aborted)

lemma no_faults_aborted [simp]: "\<not> direct_aborted no_faults now d batch"
  by (simp add: direct_aborted_def Let_def stmt_aborts_def)

lemma no_faults_ret [simp]: "ret (CreateCompaniesStructuredDirect no_faults now d batch) = None"
  by (simp add: direct_ret)

text \<open>
  C1 as claimed: when a venue with the same national ID already exists, the batch's insert
  refreshes its scalar fields from the new record and sets \<open>updated_at\<close> to the current
  time. The table holds the venue of \<open>acme\<close> under the name \<open>ACME ANTIGA\<close>, written at
  time 100; a batch with \<open>acme\<close>, now named \<open>ACME LTDA\<close>, is written at time 200 without
  any failure. The row is afterwards as it was: name \<open>ACME ANTIGA\<close>, \<open>updated_at\<close> 100.
\<close>

theorem existing_venue_is_not_refreshed:
  "cnpj (vals acme_old) = cnpj (business_args acme)
   \<and> razao_social (vals acme_old) = ''ACME ANTIGA''
   \<and> razao_social (business_args acme) = ''ACME LTDA''
   \<and> updated_at acme_old = 100
   \<and> business db_with_acme = [acme_old]
   \<and> ret (CreateCompaniesStructuredDirect no_faults 200 db_with_acme [acme]) = None
   \<and> business (final (CreateCompaniesStructuredDirect no_faults 200 db_with_acme [acme])) = [acme_old]"
proof -
  have a: "business (final (CreateCompaniesStructuredDirect no_faults 200 db_with_acme [acme]))
      = business db_with_acme"
    using ib_noop [OF acme_known, of 200] by (simp add: direct_business)
  have b: "razao_social (business_args acme) = ''ACME LTDA''"
    by (simp add: business_args_def acme_def)
  have c: "cnpj (vals acme_old) = cnpj (business_args acme)"
    by (simp add: acme_old_def)
  from a b c show ?thesis
    by (simp add: db_with_acme_def) (simp add: acme_old_def)
qed

text \<open>
  C1, amended: in structured mode each batch's venue insert is a single multi-row insert of
  the batch's valid companies with \<open>ON CONFLICT (cnpj) DO NOTHING\<close>. Every row that the
  table held before is still there afterwards, in its place and unchanged (scalar fields
  and \<open>updated_at\<close>); the rows added have national IDs that were not in the table, and
  their \<open>updated_at\<close> is the time of the insert.
\<close>

theorem venue_insert_leaves_existing_rows:
  "filter is_InsertBusinesses (trace (CreateCompaniesStructuredDirect f now d batch)) =
     (if begin_fails f \<or> batch_values batch = [] then []
      else [InsertBusinesses (map business_args (filter valid_cnpj batch))])
   \<and> (\<exists>new. business (final (CreateCompaniesStructuredDirect f now d batch)) = business d @ new
          \<and> (\<forall>r\<in>set new. cnpj (vals r) \<notin> business_cnpjs d \<and> updated_at r = now))"
proof -
  have "\<exists>new. business (fst (insert_businesses now vs d)) = business d @ new
          \<and> (\<forall>r\<in>set new. cnpj (vals r) \<notin> business_cnpjs d \<and> updated_at r = now)" for vs
  proof (induction vs arbitrary: d)
    case Nil
    then show ?case by simp
  next
    case (Cons v vs)
    let ?d0 = "d\<lparr>business_id_seq := business_id_seq d + 1\<rparr>"
    let ?row = "\<lparr>b_id = business_id_seq d, vals = v, updated_at = now, created_at = now\<rparr>"
    let ?d1 = "?d0\<lparr>business := business d @ [?row]\<rparr>"
    show ?case
    proof (cases "list_ex (\<lambda>r. cnpj (vals r) = cnpj v) (business d)")
      case True
      from Cons.IH [of ?d0] obtain n0
        where "business (fst (insert_businesses now vs ?d0)) = business d @ n0"
          and "\<forall>r\<in>set n0. cnpj (vals r) \<notin> business_cnpjs d \<and> updated_at r = now"
        by (auto simp: business_cnpjs_def)
      with True show ?thesis by (simp add: Let_def)
    next
      case False
      then have nv: "cnpj v \<notin> business_cnpjs d" by (simp add: in_cnpjs_iff)
      from Cons.IH [of ?d1] obtain n1
        where "business (fst (insert_businesses now vs ?d1)) = business d @ ?row # n1"
          and "\<forall>r\<in>set n1. cnpj (vals r) \<notin> business_cnpjs ?d1 \<and> updated_at r = now"
        by auto
      with False nv show ?thesis
        by (auto simp: Let_def case_prod_beta business_cnpjs_def)
    qed
  qed
  from this [of "batch_values batch"] show ?thesis
    by (auto simp: direct_trace_inserts direct_business batch_values_def)
qed

theorem venue_insert_leaves_existing_rows_witness:
  "filter is_InsertBusinesses (trace (CreateCompaniesStructuredDirect no_faults 200 db_with_acme [acme, short_company]))
     = [InsertBusinesses [business_args acme]]
   \<and> (\<exists>new. business (final (CreateCompaniesStructuredDirect no_faults 200 db_with_acme [acme, short_company]))
          = acme_old # new)"
proof -
  have va: "valid_cnpj acme"
    by (simp add: valid_cnpj_def acme_def removeNonDigits_def isDigit_def)
  have vs: "\<not> valid_cnpj short_company"
    by (simp add: valid_cnpj_def short_company_def removeNonDigits_def isDigit_def)
  have n: "\<not> begin_fails no_faults" by simp
  from venue_insert_leaves_existing_rows [of no_faults 200 db_with_acme "[acme, short_company]"]
  show ?thesis by (auto simp: va vs n batch_values_def db_with_acme_def)
qed


lemma direct_no_faults_business:
  "business (final (CreateCompaniesStructuredDirect no_faults now d batch)) =
     business (fst (insert_businesses now (batch_values batch) d))"
  by (simp add: direct_business)

lemma direct_no_faults_cnpjs:
  "business_cnpjs (final (CreateCompaniesStructuredDirect no_faults now d batch)) =
     business_cnpjs d \<union> cnpj ` set (batch_values batch)"
  using ib_cnpjs [of now "batch_values batch" d]
  by (simp add: business_cnpjs_def direct_no_faults_business)

lemma wb_ret [simp]: "fst (write_batches no_faults d run) = None"
proof (induction run arbitrary: d)
  case Nil
  then show ?case by simp
next
  case (Cons x run)
  obtain now b where x: "x = (now, b)" by (cases x)
  show ?case by (simp add: x Let_def Cons.IH)
qed

lemma wb_cnpjs:
  "business_cnpjs (snd (write_batches no_faults d run)) =
     business_cnpjs d \<union> (\<Union>b\<in>set (map snd run). cnpj ` set (batch_values b))"
proof (induction run arbitrary: d)
  case Nil
  then show ?case by simp
next
  case (Cons x run)
  obtain now b where x: "x = (now, b)" by (cases x)
  show ?case
    by (simp add: x Let_def Cons.IH direct_no_faults_cnpjs Un_assoc)
qed

lemma wb_noop:
  "(\<forall>b\<in>set (map snd run). \<forall>v\<in>set (batch_values b). cnpj v \<in> business_cnpjs d) \<Longrightarrow>
     business (snd (write_batches no_faults d run)) = business d"
proof (induction run arbitrary: d)
  case Nil
  then show ?case by simp
next
  case (Cons x run)
  obtain now b where x: "x = (now, b)" by (cases x)
  let ?d' = "final (CreateCompaniesStructuredDirect no_faults now d b)"
  from Cons.prems x have "\<forall>v\<in>set (batch_values b). cnpj v \<in> business_cnpjs d" by simp
  from ib_noop [OF this, of now] have same: "business ?d' = business d"
    by (simp add: direct_no_faults_business)
  then have "business_cnpjs ?d' = business_cnpjs d" by (simp add: business_cnpjs_def)
  with Cons.prems have "\<forall>b\<in>set (map snd run). \<forall>v\<in>set (batch_values b). cnpj v \<in> business_cnpjs ?d'"
    by simp
  from Cons.IH [OF this] same show ?case by (simp add: x Let_def)
qed

lemma wb_second_run:
  assumes "map snd run2 = map snd run1"
  shows "business (snd (write_batches no_faults (snd (write_batches no_faults d run1)) run2)) =
     business (snd (write_batches no_faults d run1))"
proof (rule wb_noop)
  show "\<forall>b\<in>set (map snd run2). \<forall>v\<in>set (batch_values b).
      cnpj v \<in> business_cnpjs (snd (write_batches no_faults d run1))"
    unfolding wb_cnpjs assms by auto
qed

lemma first_run_acme:
  "business (snd (write_batches no_faults empty_db [(100, [acme])])) =
     [\<lparr>b_id = 1, vals = business_args acme, updated_at = 100, created_at = 100\<rparr>]"
  by (simp add: Let_def direct_no_faults_business acme_values empty_db_def)

text \<open>
  C2 as claimed: a second run over unchanged inputs sets \<open>updated_at\<close> to the current time
  for every venue row. The first run writes \<open>acme\<close> into an empty table at time 100, the
  second writes the same batch at time 200, without any failure: \<open>updated_at\<close> is 100
  after the first run and still 100 after the second.
\<close>

theorem second_run_does_not_advance_updated_at:
  "map updated_at (business (snd (write_batches no_faults empty_db [(100, [acme])]))) = [100]
   \<and> map updated_at
        (business (snd (write_batches no_faults
                          (snd (write_batches no_faults empty_db [(100, [acme])]))
                          [(200, [acme])]))) = [100]"
proof -
  have "map snd [(200 :: time, [acme])] = map snd [(100 :: time, [acme])]" by simp
  from wb_second_run [OF this, of empty_db] show ?thesis
    by (simp only: first_run_acme) simp
qed

text \<open>
  C2, amended: when the structured writer runs a second time over the same batches, at any
  later times and without failures, every venue row is identical to the first run's
  output, \<open>updated_at\<close> included: the inserts of the second run meet
  \<open>ON CONFLICT (cnpj) DO NOTHING\<close> and change no row.
\<close>

theorem second_run_leaves_venues_unchanged:
  assumes "map snd run2 = map snd run1"
  shows "fst (write_batches no_faults d run1) = None
    \<and> fst (write_batches no_faults (snd (write_batches no_faults d run1)) run2) = None
    \<and> business (snd (write_batches no_faults (snd (write_batches no_faults d run1)) run2)) =
        business (snd (write_batches no_faults d run1))"
  using wb_second_run [OF assms] by simp

theorem second_run_leaves_venues_unchanged_witness:
  "map snd [(200 :: time, [acme, short_company])] = map snd [(100 :: time, [acme, short_company])]
   \<and> fst (write_batches no_faults empty_db [(100, [acme, short_company])]) = None
   \<and> business (snd (write_batches no_faults
                       (snd (write_batches no_faults empty_db [(100, [acme, short_company])]))
                       [(200, [acme, short_company])])) =
       business (snd (write_batches no_faults empty_db [(100, [acme, short_company])]))"
proof -
  have h: "map snd [(200 :: time, [acme, short_company])] = map snd [(100 :: time, [acme, short_company])]"
    by simp
  from second_run_leaves_venues_unchanged [OF h, of empty_db] h show ?thesis by blast
qed


lemma set_ids_snoc: "set_ids (rows @ [(i, c)]) m = (set_ids rows m)(c \<mapsto> i)"
  by (simp add: set_ids_def)

lemma set_ids_notin: "c \<notin> snd ` set rows \<Longrightarrow> set_ids rows m c = m c"
proof (induction rows rule: rev_induct)
  case Nil
  then show ?case by (simp add: set_ids_def)
next
  case (snoc x rows)
  obtain i c' where x: "x = (i, c')" by (cases x)
  from snoc show ?case by (auto simp: x set_ids_snoc)
qed

lemma set_ids_in:
  "c \<in> snd ` set rows \<Longrightarrow> \<exists>i. (i, c) \<in> set rows \<and> set_ids rows m c = Some i"
proof (induction rows rule: rev_induct)
  case Nil
  then show ?case by simp
next
  case (snoc x rows)
  obtain i c' where x: "x = (i, c')" by (cases x)
  show ?case
  proof (cases "c' = c")
    case True
    then show ?thesis by (auto simp: x set_ids_snoc)
  next
    case False
    with snoc.prems x have "c \<in> snd ` set rows" by auto
    from snoc.IH [OF this] False show ?thesis by (auto simp: x set_ids_snoc)
  qed
qed

lemma ib_returned:
  "(i, c) \<in> set (snd (insert_businesses now vs d)) \<Longrightarrow> business_id_seq d \<le> i"
proof (induction vs arbitrary: d)
  case Nil
  then show ?case by simp
next
  case (Cons v vs)
  let ?d0 = "d\<lparr>business_id_seq := business_id_seq d + 1\<rparr>"
  let ?d1 = "?d0\<lparr>business := business d @
      [\<lparr>b_id = business_id_seq d, vals = v, updated_at = now, created_at = now\<rparr>]\<rparr>"
  from Cons.IH [of ?d0] Cons.IH [of ?d1] Cons.prems show ?case
    by (auto simp: Let_def case_prod_beta split: if_splits)
qed

lemma ib_ids_nonzero:
  "ids_nonzero d \<Longrightarrow> ids_nonzero (fst (insert_businesses now vs d))"
proof (induction vs arbitrary: d)
  case Nil
  then show ?case by simp
next
  case (Cons v vs)
  let ?d0 = "d\<lparr>business_id_seq := business_id_seq d + 1\<rparr>"
  let ?d1 = "?d0\<lparr>business := business d @
      [\<lparr>b_id = business_id_seq d, vals = v, updated_at = now, created_at = now\<rparr>]\<rparr>"
  from Cons.prems have "ids_nonzero ?d0" and "ids_nonzero ?d1"
    by (simp_all add: ids_nonzero_def)
  with Cons.IH [of ?d0] Cons.IH [of ?d1] show ?case
    by (simp add: Let_def case_prod_beta)
qed

lemma select_by_cnpj_snd: "snd ` set (select_by_cnpj d cs) \<subseteq> set cs"
  by (auto simp: select_by_cnpj_def)

text \<open>The map of business keys that the writer holds after the two lookups.\<close>

lemma resolved_ids:
  assumes g: "ids_nonzero d" and v: "v \<in> set vs"
  shows "\<exists>i. direct_id_map no_faults now d vs (cnpj v) = Some i \<and> i \<noteq> 0"
proof -
  let ?d1 = "fst (insert_businesses now vs d)"
  let ?ret = "snd (insert_businesses now vs d)"
  let ?m0 = "map_of (map (\<lambda>v. (cnpj v, 0::int)) vs)"
  let ?m1 = "set_ids ?ret ?m0"
  let ?missing = "filter (\<lambda>c. c \<notin> set (map snd ?ret)) (remdups (map cnpj vs))"
  have ri: "resolve_inserted no_faults ?ret vs = (?m1, ?missing, [])"
    by (simp add: resolve_inserted_def Let_def)
  have re: "fst (resolve_existing no_faults False d' ms m) =
      (if ms = [] then m else set_ids (select_by_cnpj d' ms) m)" for d' ms m
    by (simp add: resolve_existing_def stmt_fails_def stmt_aborts_def Let_def)
  have g1: "ids_nonzero ?d1" using g by (rule ib_ids_nonzero)
  show ?thesis
  proof (cases "cnpj v \<in> snd ` set ?ret")
    case True
    from set_ids_in [OF True, of ?m0] obtain i where i: "(i, cnpj v) \<in> set ?ret"
      and m1: "?m1 (cnpj v) = Some i" by auto
    from ib_returned [OF i] g have nz: "i \<noteq> 0" by (simp add: ids_nonzero_def)
    from True have "cnpj v \<notin> set ?missing" by simp
    with select_by_cnpj_snd [of ?d1 ?missing]
    have "cnpj v \<notin> snd ` set (select_by_cnpj ?d1 ?missing)"
      by blast
    from set_ids_notin [OF this, of ?m1] m1 nz show ?thesis
      by (auto simp: direct_id_map_def case_prod_beta ri re)
  next
    case False
    with v have mi: "cnpj v \<in> set ?missing" by auto
    from v have "cnpj v \<in> business_cnpjs ?d1" by (simp add: ib_cnpjs)
    then obtain r where r: "r \<in> set (business ?d1)" and rc: "cnpj (vals r) = cnpj v"
      by (auto simp: business_cnpjs_def)
    with mi have "cnpj v \<in> snd ` set (select_by_cnpj ?d1 ?missing)"
      by (force simp: select_by_cnpj_def image_iff)
    from set_ids_in [OF this, of ?m1] obtain i
      where i: "(i, cnpj v) \<in> set (select_by_cnpj ?d1 ?missing)"
        and m2: "set_ids (select_by_cnpj ?d1 ?missing) ?m1 (cnpj v) = Some i" by auto
    from i obtain r' where "r' \<in> set (business ?d1)" and "i = b_id r'"
      by (auto simp: select_by_cnpj_def)
    with g1 have nz: "i \<noteq> 0" by (auto simp: ids_nonzero_def list_all_iff)
    from mi have "?missing \<noteq> []" by (metis empty_iff empty_set)
    with m2 nz show ?thesis
      by (auto simp: direct_id_map_def case_prod_beta ri re)
  qed
qed

lemma is_covers:
  "p \<in> set ps \<Longrightarrow>
     \<exists>row\<in>set (socios_cnpj (insert_socios ps d)). s_cnpj row = s_cnpj p \<and> nome_socio row = nome_socio p"
proof (induction ps arbitrary: d)
  case Nil
  then show ?case by simp
next
  case (Cons q ps)
  let ?d1 = "d\<lparr>socios_cnpj := socios_cnpj d @ [q]\<rparr>"
  show ?case
  proof (cases "p = q")
    case True
    show ?thesis
    proof (cases "list_ex (\<lambda>r. s_cnpj r = s_cnpj q \<and> nome_socio r = nome_socio q) (socios_cnpj d)")
      case ex: True
      then obtain r where "r \<in> set (socios_cnpj d)" "s_cnpj r = s_cnpj q" "nome_socio r = nome_socio q"
        by (auto simp: list_ex_iff)
      moreover from is_prefix [of ps d] obtain new
        where "socios_cnpj (insert_socios ps d) = socios_cnpj d @ new" by auto
      ultimately show ?thesis using ex True by auto
    next
      case nex: False
      from is_prefix [of ps ?d1] obtain new
        where "socios_cnpj (insert_socios ps ?d1) = socios_cnpj d @ q # new" by auto
      with nex True show ?thesis by auto
    qed
  next
    case False
    with Cons.prems have "p \<in> set ps" by simp
    from Cons.IH [OF this, of d] Cons.IH [OF this, of ?d1] show ?thesis by auto
  qed
qed

lemma direct_no_faults_final:
  "final (CreateCompaniesStructuredDirect no_faults now d batch) =
     (if batch_values batch = [] then d
      else insert_socios
             (batch_partner_values (direct_id_map no_faults now d (batch_values batch)) batch)
             (fst (insert_businesses now (batch_values batch) d)))"
  by (simp add: direct_final)

lemma direct_businesses_logs:
  "fst (snd (snd (direct_businesses no_faults now d vs a0))) = []"
  by (simp add: direct_businesses_def resolve_inserted_def resolve_existing_def
      stmt_fails_def stmt_aborts_def case_prod_beta Let_def)

lemma direct_partners_logs:
  "fst (snd (direct_partners no_faults d1 ps False)) = []"
  by (simp add: direct_partners_def stmt_fails_def)

lemma direct_no_faults_logs:
  "logs (CreateCompaniesStructuredDirect no_faults now d batch) =
     batch_invalid_logs batch @
     batch_partner_logs (if batch_values batch = [] then Map.empty
                         else direct_id_map no_faults now d (batch_values batch)) batch"
  unfolding CreateCompaniesStructuredDirect_def Let_def case_prod_beta
  by (simp add: direct_businesses_logs direct_partners_logs direct_commit_def
      direct_businesses_proj direct_partners_proj stmt_aborts_def)

lemma cnpj_business_args [simp]: "cnpj (business_args c) = removeNonDigits (CNPJ c)"
  by (simp add: business_args_def)

lemma partner_values_mem:
  "row \<in> set (batch_partner_values m batch) \<longleftrightarrow>
     (\<exists>c\<in>set batch. company_has_id m c \<and>
        (\<exists>p\<in>set (QuadroSocietario c). direct_partner_ok p \<and>
           row = direct_partner_args (the (m (removeNonDigits (CNPJ c)))) (removeNonDigits (CNPJ c)) p))"
  by (auto simp: batch_partner_values_def company_partner_values_def)

lemma partner_logs_mem:
  "c \<in> set batch \<Longrightarrow> company_has_id m c \<Longrightarrow> p \<in> set (QuadroSocietario c) \<Longrightarrow>
     \<not> direct_partner_ok p \<Longrightarrow>
     (Warn, ''CPF com mais de 11 digitos, ignorando socio'') \<in> set (batch_partner_logs m batch)"
  by (force simp: batch_partner_logs_def company_partner_logs_def)

lemma invalid_logs_mem:
  "c \<in> set batch \<Longrightarrow> \<not> valid_cnpj c \<Longrightarrow>
     (Warn, ''invalid CNPJ length'') \<in> set (batch_invalid_logs batch)"
  by (force simp: batch_invalid_logs_def)

text \<open>
  C5. In a batch write without database failures, on a table whose keys are not 0: the
  function returns no error, whatever rows the batch holds. A company whose national ID
  does not have exactly 14 digits after the non-digits are stripped is logged with a
  warning and not written; every other company of the batch is in the table afterwards.
  Of such a company, a partner whose tax ID has more than 11 digits is logged with a
  warning and not written, and every other partner of the company is in the partners table
  afterwards.
\<close>

theorem invalid_rows_are_skipped:
  assumes g: "ids_nonzero d"
    and r: "r = CreateCompaniesStructuredDirect no_faults now d batch"
  shows "ret r = None
    \<and> business_cnpjs (final r) =
        business_cnpjs d \<union> (\<lambda>c. removeNonDigits (CNPJ c)) ` {c \<in> set batch. valid_cnpj c}
    \<and> (\<forall>c\<in>set batch. \<not> valid_cnpj c \<longrightarrow> (Warn, ''invalid CNPJ length'') \<in> set (logs r))
    \<and> (\<forall>c\<in>set batch. valid_cnpj c \<longrightarrow>
          (\<forall>p\<in>set (QuadroSocietario c).
             if length (removeNonDigits (CNPJCPFDoSocio p)) > 11
             then (Warn, ''CPF com mais de 11 digitos, ignorando socio'') \<in> set (logs r)
             else (\<exists>row\<in>set (socios_cnpj (final r)).
                     s_cnpj row = removeNonDigits (CNPJ c) \<and>
                     nome_socio row = take 200 (NomeSocio p))))
    \<and> (\<forall>row\<in>set (socios_cnpj (final r)).
          row \<in> set (socios_cnpj d) \<or>
          (\<exists>c\<in>set batch. valid_cnpj c \<and>
             (\<exists>p\<in>set (QuadroSocietario c).
                length (removeNonDigits (CNPJCPFDoSocio p)) \<le> 11 \<and>
                s_cnpj row = removeNonDigits (CNPJ c) \<and>
                nome_socio row = take 200 (NomeSocio p) \<and>
                cpf_socio row = cpf_value p)))"
proof -
  define vs where "vs = batch_values batch"
  define M where "M = direct_id_map no_faults now d vs"
  define d1 where "d1 = fst (insert_businesses now vs d)"
  have c1: "ret r = None" by (simp add: r)
  have c2: "business_cnpjs (final r) =
        business_cnpjs d \<union> (\<lambda>c. removeNonDigits (CNPJ c)) ` {c \<in> set batch. valid_cnpj c}"
    by (simp add: r direct_no_faults_cnpjs batch_values_def image_image)
  have c3: "\<forall>c\<in>set batch. \<not> valid_cnpj c \<longrightarrow> (Warn, ''invalid CNPJ length'') \<in> set (logs r)"
    by (simp add: r direct_no_faults_logs invalid_logs_mem)
  have fin: "vs \<noteq> [] \<Longrightarrow> final r = insert_socios (batch_partner_values M batch) d1"
    and lg: "vs \<noteq> [] \<Longrightarrow> logs r = batch_invalid_logs batch @ batch_partner_logs M batch"
    and fin0: "vs = [] \<Longrightarrow> final r = d"
    by (simp_all add: r direct_no_faults_final direct_no_faults_logs vs_def M_def d1_def)
  have c4: "\<forall>c\<in>set batch. valid_cnpj c \<longrightarrow>
          (\<forall>p\<in>set (QuadroSocietario c).
             if length (removeNonDigits (CNPJCPFDoSocio p)) > 11
             then (Warn, ''CPF com mais de 11 digitos, ignorando socio'') \<in> set (logs r)
             else (\<exists>row\<in>set (socios_cnpj (final r)).
                     s_cnpj row = removeNonDigits (CNPJ c) \<and>
                     nome_socio row = take 200 (NomeSocio p)))"
  proof (intro ballI impI)
    fix c p
    assume c: "c \<in> set batch" and v: "valid_cnpj c" and p: "p \<in> set (QuadroSocietario c)"
    from c v have in_vs: "business_args c \<in> set vs" by (simp add: vs_def batch_values_def)
    then have ne: "vs \<noteq> []" by auto
    from resolved_ids [OF g in_vs, of now] obtain i
      where i: "M (removeNonDigits (CNPJ c)) = Some i" and nz: "i \<noteq> 0"
      by (auto simp: M_def)
    with v have has: "company_has_id M c" by (simp add: company_has_id_def)
    show "if length (removeNonDigits (CNPJCPFDoSocio p)) > 11
             then (Warn, ''CPF com mais de 11 digitos, ignorando socio'') \<in> set (logs r)
             else (\<exists>row\<in>set (socios_cnpj (final r)).
                     s_cnpj row = removeNonDigits (CNPJ c) \<and>
                     nome_socio row = take 200 (NomeSocio p))"
    proof (cases "direct_partner_ok p")
      case True
      with c has p have "direct_partner_args i (removeNonDigits (CNPJ c)) p
          \<in> set (batch_partner_values M batch)"
        unfolding partner_values_mem using i by force
      from is_covers [OF this, of d1] True show ?thesis
        by (simp add: fin [OF ne] direct_partner_args_def direct_partner_ok_def)
    next
      case False
      from partner_logs_mem [OF c has p False] False show ?thesis
        by (simp add: lg [OF ne] direct_partner_ok_def)
    qed
  qed
  have c5: "\<forall>row\<in>set (socios_cnpj (final r)).
          row \<in> set (socios_cnpj d) \<or>
          (\<exists>c\<in>set batch. valid_cnpj c \<and>
             (\<exists>p\<in>set (QuadroSocietario c).
                length (removeNonDigits (CNPJCPFDoSocio p)) \<le> 11 \<and>
                s_cnpj row = removeNonDigits (CNPJ c) \<and>
                nome_socio row = take 200 (NomeSocio p) \<and>
                cpf_socio row = cpf_value p))"
  proof
    fix row
    assume row: "row \<in> set (socios_cnpj (final r))"
    show "row \<in> set (socios_cnpj d) \<or>
          (\<exists>c\<in>set batch. valid_cnpj c \<and>
             (\<exists>p\<in>set (QuadroSocietario c).
                length (removeNonDigits (CNPJCPFDoSocio p)) \<le> 11 \<and>
                s_cnpj row = removeNonDigits (CNPJ c) \<and>
                nome_socio row = take 200 (NomeSocio p) \<and>
                cpf_socio row = cpf_value p))"
    proof (cases "vs = []")
      case True
      with row fin0 show ?thesis by simp
    next
      case False
      from is_prefix [of "batch_partner_values M batch" d1] obtain new
        where n: "socios_cnpj (insert_socios (batch_partner_values M batch) d1) = socios_cnpj d1 @ new"
          and s: "set new \<subseteq> set (batch_partner_values M batch)" by auto
      have "socios_cnpj d1 = socios_cnpj d" by (simp add: d1_def)
      with row n fin [OF False] have "row \<in> set (socios_cnpj d) \<or> row \<in> set new" by auto
      then show ?thesis
      proof
        assume "row \<in> set (socios_cnpj d)"
        then show ?thesis ..
      next
        assume "row \<in> set new"
        with s have "row \<in> set (batch_partner_values M batch)" by blast
        then obtain c p where "c \<in> set batch" "company_has_id M c" "p \<in> set (QuadroSocietario c)"
          "direct_partner_ok p"
          "row = direct_partner_args (the (M (removeNonDigits (CNPJ c)))) (removeNonDigits (CNPJ c)) p"
          unfolding partner_values_mem by blast
        then show ?thesis
          by (auto simp: company_has_id_def direct_partner_ok_def direct_partner_args_def)
      qed
    qed
  qed
  from c1 c2 c3 c4 c5 show ?thesis by (intro conjI)
qed

theorem invalid_rows_are_skipped_witness:
  "ids_nonzero empty_db
   \<and> ret (CreateCompaniesStructuredDirect no_faults 200 empty_db [acme, short_company]) = None
   \<and> business_cnpjs (final (CreateCompaniesStructuredDirect no_faults 200 empty_db [acme, short_company]))
       = {''12345678000199''}
   \<and> (Warn, ''invalid CNPJ length'')
       \<in> set (logs (CreateCompaniesStructuredDirect no_faults 200 empty_db [acme, short_company]))
   \<and> (Warn, ''CPF com mais de 11 digitos, ignorando socio'')
       \<in> set (logs (CreateCompaniesStructuredDirect no_faults 200 empty_db [acme, short_company]))
   \<and> nome_socio ` set (socios_cnpj
         (final (CreateCompaniesStructuredDirect no_faults 200 empty_db [acme, short_company])))
       = {''ALICE''}"
proof -
  have g: "ids_nonzero empty_db" by (simp add: ids_nonzero_def empty_db_def)
  have va: "valid_cnpj acme"
    by (simp add: valid_cnpj_def acme_def removeNonDigits_def isDigit_def)
  have vs: "\<not> valid_cnpj short_company"
    by (simp add: valid_cnpj_def short_company_def removeNonDigits_def isDigit_def)
  have ca: "removeNonDigits (CNPJ acme) = ''12345678000199''"
    by (simp add: acme_def removeNonDigits_def isDigit_def)
  have q: "QuadroSocietario acme = [alice, holding]" "QuadroSocietario short_company = []"
    by (simp_all add: acme_def short_company_def company0_def)
  have pa: "length (removeNonDigits (CNPJCPFDoSocio alice)) = 6" "NomeSocio alice = ''ALICE''"
    by (simp_all add: alice_def removeNonDigits_def isDigit_def)
  have ph: "length (removeNonDigits (CNPJCPFDoSocio holding)) = 14" "NomeSocio holding = ''HOLDING SA''"
    by (simp_all add: holding_def removeNonDigits_def isDigit_def)
  have s0: "socios_cnpj empty_db = []" "business_cnpjs empty_db = {}"
    by (simp_all add: empty_db_def business_cnpjs_def)
  have set_eq: "{c. (c = acme \<or> c = short_company) \<and> valid_cnpj c} = {acme}"
    using va vs by auto
  let ?r = "CreateCompaniesStructuredDirect no_faults 200 empty_db [acme, short_company]"
  note t = invalid_rows_are_skipped [OF g refl, of 200 "[acme, short_company]"]
  from t have c1: "ret ?r = None"
    by blast
  from t have c2: "business_cnpjs (final ?r) = {''12345678000199''}"
    by (simp add: s0 set_eq ca)
  from t vs have c3: "(Warn, ''invalid CNPJ length'') \<in> set (logs ?r)"
    by simp
  from t va have c4: "(Warn, ''CPF com mais de 11 digitos, ignorando socio'') \<in> set (logs ?r)"
    by (simp add: q ph pa)
  from t va have ex: "\<exists>row\<in>set (socios_cnpj (final ?r)).
         s_cnpj row = ''12345678000199'' \<and> nome_socio row = ''ALICE''"
    by (simp add: q ph pa ca)
  from t have al: "\<forall>row\<in>set (socios_cnpj (final ?r)). nome_socio row = ''ALICE''"
    by (auto simp: s0 q ph pa vs)
  from al have "nome_socio ` set (socios_cnpj (final ?r)) \<subseteq> {''ALICE''}" by blast
  moreover from ex have "''ALICE'' \<in> nome_socio ` set (socios_cnpj (final ?r))" by force
  ultimately have c5: "nome_socio ` set (socios_cnpj (final ?r)) = {''ALICE''}" by blast
  from g c1 c2 c3 c4 c5 show ?thesis by (intro conjI)
qed

section \<open>Properties of the partners-only import\<close>

lemma truncateTo120_length: "length (truncateTo120 s) \<le> 120"
  by (simp add: truncateTo120_def truncateString_def)

lemma truncateTo120_short: "length s \<le> 120 \<Longrightarrow> truncateTo120 s = s"
  by (simp add: truncateTo120_def truncateString_def)

lemma truncateTo120_long: "120 < length s \<Longrightarrow> truncateTo120 s = take 117 s @ ''...''"
  by (simp add: truncateTo120_def truncateString_def)

lemma is_invariant:
  assumes "\<forall>r\<in>set (socios_cnpj d). Q r" and "\<forall>r\<in>set ps. Q r"
  shows "\<forall>r\<in>set (socios_cnpj (insert_socios ps d)). Q r"
proof -
  from is_prefix [of ps d] obtain new
    where "socios_cnpj (insert_socios ps d) = socios_cnpj d @ new" and "set new \<subseteq> set ps"
    by auto
  with assms show ?thesis by auto
qed

lemma import_partner_values_inv:
  "\<forall>p\<in>set ps. \<forall>i c. Q (import_partner_args i c p) \<Longrightarrow>
     \<forall>r\<in>set (import_partner_values i c ps). Q r"
  by (auto simp: import_partner_values_def)

lemma import_transactions_inv:
  assumes "\<forall>r\<in>set (socios_cnpj d). Q r"
    and "\<forall>x\<in>set tp. \<forall>p\<in>set (snd x). \<forall>i c. Q (import_partner_args i c p)"
  shows "\<forall>r\<in>set (socios_cnpj (final (import_transactions f tc d tp))). Q r"
  using assms
proof (induction tp arbitrary: d)
  case Nil
  then show ?case by simp
next
  case (Cons x tp)
  obtain i ps where x: "x = (i, ps)" by (cases x)
  let ?c = "case map_of tc i of None \<Rightarrow> [] | Some c \<Rightarrow> c"
  let ?rows = "import_partner_values i ?c ps"
  from Cons.prems(2) x have "\<forall>p\<in>set ps. \<forall>i c. Q (import_partner_args i c p)" by simp
  then have rows: "\<forall>r\<in>set ?rows. Q r" by (rule import_partner_values_inv)
  from is_invariant [OF Cons.prems(1) rows]
  have ins: "\<forall>r\<in>set (socios_cnpj (insert_socios ?rows d)). Q r" .
  from Cons.prems(2) have rest: "\<forall>x\<in>set tp. \<forall>p\<in>set (snd x). \<forall>i c. Q (import_partner_args i c p)"
    by simp
  note ih1 = Cons.IH [OF Cons.prems(1) rest] and ih2 = Cons.IH [OF ins rest]
  show ?case using ih1 ih2 Cons.prems(1)
    by (simp add: x Let_def case_prod_beta)
qed

lemma foldl_inv:
  "I a \<Longrightarrow> (\<And>a x. x \<in> set xs \<Longrightarrow> I a \<Longrightarrow> I (f a x)) \<Longrightarrow> I (foldl f a xs)"
  by (induction xs arbitrary: a) simp_all

lemma update_mem:
  "x \<in> set (AList.update k v al) \<Longrightarrow> x = (k, v) \<or> x \<in> set al"
  by (induction al) (auto split: if_splits)

lemma update_lists_within:
  "\<forall>x\<in>set m. set (snd x) \<subseteq> P \<Longrightarrow> set v \<subseteq> P \<Longrightarrow>
     \<forall>x\<in>set (AList.update k v m). set (snd x) \<subseteq> P"
  using update_mem [of _ k v m] by fastforce

lemma lookup_list_within:
  "\<forall>x\<in>set m. set (snd x) \<subseteq> P \<Longrightarrow> set (lookup_list m k) \<subseteq> P"
proof (cases "map_of m k")
  case None
  then show ?thesis by (simp add: lookup_list_def)
next
  case (Some l)
  then have "(k, l) \<in> set m" by (rule map_of_SomeD)
  moreover assume "\<forall>x\<in>set m. set (snd x) \<subseteq> P"
  ultimately have "set l \<subseteq> P" by fastforce
  with Some show ?thesis by (simp add: lookup_list_def)
qed

lemma append_at_within:
  "\<forall>x\<in>set m. set (snd x) \<subseteq> P \<Longrightarrow> set vs \<subseteq> P \<Longrightarrow>
     \<forall>x\<in>set (append_at k vs m). set (snd x) \<subseteq> P"
  unfolding append_at_def
  by (rule update_lists_within) (use lookup_list_within [of m P k] in auto)

lemma cnpjToPartners_within:
  "\<forall>x\<in>set batch. set (snd x) \<subseteq> P \<Longrightarrow> \<forall>x\<in>set (cnpjToPartners_of batch). set (snd x) \<subseteq> P"
  unfolding cnpjToPartners_of_def
proof (rule foldl_inv)
  show "\<forall>x\<in>set []. set (snd x) \<subseteq> P" by simp
next
  fix a :: "(string, PartnerData list) gomap" and x
  assume b: "\<forall>x\<in>set batch. set (snd x) \<subseteq> P"
    and x: "x \<in> set batch" and a: "\<forall>x\<in>set a. set (snd x) \<subseteq> P"
  from b x have "set (snd x) \<subseteq> P" by blast
  from update_lists_within [OF a this, of "removeNonDigits (fst x)"]
  show "\<forall>y\<in>set (case x of (c, ps) \<Rightarrow> AList.update (removeNonDigits c) ps a). set (snd y) \<subseteq> P"
    by (simp add: case_prod_beta)
qed

lemma group_ids_within:
  "\<forall>x\<in>set (fst acc). set (snd x) \<subseteq> P \<Longrightarrow> set ps \<subseteq> P \<Longrightarrow>
     \<forall>x\<in>set (fst (group_ids m ps acc i)). set (snd x) \<subseteq> P"
  using append_at_within [of "fst acc" P ps i]
  by (auto simp: group_ids_def case_prod_beta split: option.splits)

lemma group_partners_within:
  assumes "\<forall>x\<in>set ctp. set (snd x) \<subseteq> P"
  shows "\<forall>x\<in>set (fst (group_partners m1 m2 ctp)). set (snd x) \<subseteq> P"
  unfolding group_partners_def
proof (rule foldl_inv)
  show "\<forall>x\<in>set (fst ([], [], [])). set (snd x) \<subseteq> P" by simp
next
  fix acc :: "(int, PartnerData list) gomap \<times> (int, string) gomap \<times> (level \<times> string) list"
    and x
  assume x: "x \<in> set ctp" and acc: "\<forall>y\<in>set (fst acc). set (snd y) \<subseteq> P"
  from x assms have ps: "set (snd x) \<subseteq> P" by blast
  have "\<forall>y\<in>set (fst (foldl (group_ids m2 (snd x)) acc ids)). set (snd y) \<subseteq> P" for ids
    by (rule foldl_inv [where I = "\<lambda>a. \<forall>y\<in>set (fst a). set (snd y) \<subseteq> P"])
       (use acc ps group_ids_within in blast)+
  with acc show "\<forall>y\<in>set (fst (case x of (c, ps) \<Rightarrow>
            if lookup_list m1 c = []
            then (case acc of (tp, tc, l) \<Rightarrow>
                    (tp, tc, l @ [(Warn, ''No businesses found for CNPJ, skipping partners'')]))
            else foldl (group_ids m2 ps) acc (lookup_list m1 c))). set (snd y) \<subseteq> P"
    by (simp add: case_prod_beta)
qed

lemma ImportPartnersBatch_inv:
  assumes d: "\<forall>r\<in>set (socios_cnpj d). Q r"
    and b: "\<forall>x\<in>set batch. \<forall>p\<in>set (snd x). \<forall>i c. Q (import_partner_args i c p)"
  shows "\<forall>r\<in>set (socios_cnpj (final (ImportPartnersBatch f d batch))). Q r"
proof -
  define P where "P = {p. \<forall>i c. Q (import_partner_args i c p)}"
  from b have "\<forall>x\<in>set batch. set (snd x) \<subseteq> P" by (auto simp: P_def)
  then have "\<forall>x\<in>set (cnpjToPartners_of batch). set (snd x) \<subseteq> P"
    by (rule cnpjToPartners_within)
  then have "\<forall>x\<in>set (fst (group_partners m1 m2 (cnpjToPartners_of batch))). set (snd x) \<subseteq> P"
    for m1 m2 by (rule group_partners_within)
  then have "\<forall>x\<in>set (fst (group_partners m1 m2 (cnpjToPartners_of batch))).
      \<forall>p\<in>set (snd x). \<forall>i c. Q (import_partner_args i c p)" for m1 m2
    unfolding P_def by blast
  from import_transactions_inv [OF d this] d show ?thesis
    by (simp add: ImportPartnersBatch_def Let_def case_prod_beta import_failed_def
        split: sum.split)
qed


lemma fallback_inserts_inv:
  assumes "\<forall>r\<in>set (socios_cnpj d). Q r"
    and "\<forall>p\<in>set ps. \<forall>i c. Q (import_partner_args i c p)"
  shows "\<forall>r\<in>set (socios_cnpj (fst (fallback_inserts f i c a ps d))). Q r"
  using assms
proof (induction ps arbitrary: d a)
  case Nil
  then show ?case by simp
next
  case (Cons p ps)
  from Cons.prems(2) have rest: "\<forall>p\<in>set ps. \<forall>i c. Q (import_partner_args i c p)"
    and p: "Q (import_partner_args i c p)" by simp_all
  from p have "\<forall>r\<in>set [import_partner_args i c p]. Q r" by simp
  from is_invariant [OF Cons.prems(1) this]
  have ins: "\<forall>r\<in>set (socios_cnpj (insert_socios [import_partner_args i c p] d)). Q r" .
  from Cons.IH [OF Cons.prems(1) rest] Cons.IH [OF ins rest] show ?case
    by (simp add: Let_def case_prod_beta)
qed

lemma only_transactions_inv:
  assumes "\<forall>r\<in>set (socios_cnpj d). Q r"
    and ps: "\<forall>p\<in>set ps. \<forall>i c. Q (import_partner_args i c p)"
  shows "\<forall>r\<in>set (socios_cnpj (final (only_transactions f ps d ids))). Q r"
  using assms(1)
proof (induction ids arbitrary: d)
  case Nil
  then show ?case by simp
next
  case (Cons i ids)
  show ?case
  proof (cases "if o_get_cnpj_fails f i then [] else map snd (select_by_id d [i])")
    case Nil
    with Cons.IH [OF Cons.prems] show ?thesis by (simp add: Let_def)
  next
    case (Cons c others)
    let ?rows = "import_partner_values i c ps"
    from ps have "\<forall>r\<in>set ?rows. Q r" by (rule import_partner_values_inv)
    from is_invariant [OF Cons.prems this]
    have ins: "\<forall>r\<in>set (socios_cnpj (insert_socios ?rows d)). Q r" .
    from fallback_inserts_inv [OF Cons.prems ps]
    have fb: "\<forall>r\<in>set (socios_cnpj (fst (fallback_inserts f i c a ps d))). Q r" for a .
    note ih = Cons.IH [OF Cons.prems] Cons.IH [OF ins] Cons.IH [OF fb]
    from Cons ih Cons.prems show ?thesis
      by (simp add: Let_def case_prod_beta del: only_transactions.simps
          add: only_transactions.simps(2) [of f ps d i ids])
  qed
qed

lemma ImportPartnersOnly_inv:
  assumes "\<forall>r\<in>set (socios_cnpj d). Q r"
    and "\<forall>p\<in>set ps. \<forall>i c. Q (import_partner_args i c p)"
  shows "\<forall>r\<in>set (socios_cnpj (final (ImportPartnersOnly f d ps c))). Q r"
  using only_transactions_inv [OF assms] assms(1)
  by (simp add: ImportPartnersOnly_def Let_def import_failed_def del: only_transactions.simps
      split: list.split prod.split)

lemma acme_row_cnpj: "cnpj (vals acme_row) = ''12345678000199''"
  by (simp add: acme_row_def acme_def removeNonDigits_def isDigit_def)

lemma long_ok: "direct_partner_ok long_partner" "direct_partner_ok alice"
  "direct_partner_ok accented_partner"
  by (simp_all add: direct_partner_ok_def long_partner_def alice_def accented_partner_def
      removeNonDigits_def isDigit_def)

lemma accented_name_bytes:
  "accented_name = replicate 100 (CHR ''A'') @ concat (replicate 8 [CHR 0xC3, CHR 0xA9])
     @ [CHR 0xC3] @ [CHR 0xA9] @ concat (replicate 2 [CHR 0xC3, CHR 0xA9])"
  by (simp add: accented_name_def eval_nat_numeral)

lemma accented_name_cut:
  "truncateTo120 accented_name =
     replicate 100 (CHR ''A'') @ concat (replicate 8 [CHR 0xC3, CHR 0xA9]) @ [CHR 0xC3] @ ''...''"
proof -
  have l: "length (replicate 100 (CHR ''A'') @ concat (replicate 8 [CHR 0xC3, CHR 0xA9 :: char])
      @ [CHR 0xC3]) = 117"
    by (simp add: eval_nat_numeral)
  have "take 117 accented_name = replicate 100 (CHR ''A'')
      @ concat (replicate 8 [CHR 0xC3, CHR 0xA9]) @ [CHR 0xC3]"
    unfolding accented_name_bytes using l by (simp add: eval_nat_numeral)
  moreover have "length accented_name = 122"
    by (simp add: accented_name_def eval_nat_numeral)
  ultimately show ?thesis by (simp add: truncateTo120_long)
qed

lemma accented_eval:
  "map nome_socio (socios_cnpj (final (ImportPartnersBatch no_batch_faults db_acme
       [(''12345678'', [accented_partner])]))) = [truncateTo120 accented_name]"
  by (simp add: ImportPartnersBatch_def resolve_business_ids_def baseCNPJs_of_def fullCNPJs_of_def
      cnpjToPartners_of_def removeNonDigits_def isDigit_def run_query_def no_batch_faults_def
      select_by_base_def select_by_cnpj_def select_by_id_def db_acme_def acme_row_cnpj
      add_business_ids_def append_at_def lookup_list_def group_partners_def group_ids_def
      import_partner_values_def long_ok import_partner_args_def Let_def)
     (simp add: accented_partner_def)



lemma batch_eval:
  "map nome_socio (socios_cnpj (final (ImportPartnersBatch no_batch_faults db_acme
       [(''12345678'', [long_partner, alice])]))) =
     [replicate 117 (CHR ''A'') @ ''...'', ''ALICE'']"
  by (simp add: ImportPartnersBatch_def resolve_business_ids_def baseCNPJs_of_def fullCNPJs_of_def
      cnpjToPartners_of_def removeNonDigits_def isDigit_def run_query_def no_batch_faults_def
      select_by_base_def select_by_cnpj_def select_by_id_def db_acme_def acme_row_cnpj
      add_business_ids_def append_at_def lookup_list_def group_partners_def group_ids_def
      import_partner_values_def long_ok import_partner_args_def Let_def)
     (simp add: truncateTo120_def truncateString_def long_partner_def alice_def long_name_def)

lemma only_eval:
  "map nome_socio (socios_cnpj (final (ImportPartnersOnly no_only_faults db_acme
       [long_partner, alice] ''12345678''))) =
     [replicate 117 (CHR ''A'') @ ''...'', ''ALICE'']"
  by (simp add: ImportPartnersOnly_def removeNonDigits_def isDigit_def no_only_faults_def
      select_like_def select_by_id_def db_acme_def acme_row_cnpj
      import_partner_values_def long_ok import_partner_args_def Let_def)
     (simp add: truncateTo120_def truncateString_def long_partner_def alice_def long_name_def
      acme_row_def)


section \<open>Properties of the metadata table\<close>

text \<open>
  C9. \<open>MetaSave\<close> with a key of more than 16 characters returns an error, sends no
  statement and leaves the database as it was; when \<open>MetaSave\<close> returns no error the key
  has at most 16 characters and the value is stored under it; the metadata table changes
  only for keys of at most 16 characters.
\<close>

theorem MetaSave_key_length:
  "(16 < length k \<longrightarrow>
      ret (MetaSave f d k v) = Some MetaKeyTooLong \<and> final (MetaSave f d k v) = d
      \<and> trace (MetaSave f d k v) = [])
   \<and> (ret (MetaSave f d k v) = None \<longrightarrow>
      length k \<le> 16 \<and> meta (final (MetaSave f d k v)) k = Some v)
   \<and> (meta (final (MetaSave f d k v)) \<noteq> meta d \<longrightarrow> length k \<le> 16)"
  by (simp add: MetaSave_def exec_meta_save_def)

theorem MetaSave_key_length_witness:
  "length ''updated-at'' \<le> 16
   \<and> ret (MetaSave no_meta_faults empty_db ''updated-at'' ''2025-01-11'') = None
   \<and> meta (final (MetaSave no_meta_faults empty_db ''updated-at'' ''2025-01-11'')) ''updated-at''
       = Some ''2025-01-11''
   \<and> 16 < length ''federal-revenue-updated-at''
   \<and> ret (MetaSave no_meta_faults empty_db ''federal-revenue-updated-at'' ''2025-01-11'')
       = Some MetaKeyTooLong
   \<and> final (MetaSave no_meta_faults empty_db ''federal-revenue-updated-at'' ''2025-01-11'')
       = empty_db"
proof -
  have ok: "ret (MetaSave no_meta_faults empty_db ''updated-at'' ''2025-01-11'') = None"
    by (simp add: MetaSave_def no_meta_faults_def)
  have long: "16 < length ''federal-revenue-updated-at''" by simp
  from MetaSave_key_length [of "''updated-at''" no_meta_faults empty_db "''2025-01-11''"] ok
  have a: "meta (final (MetaSave no_meta_faults empty_db ''updated-at'' ''2025-01-11'')) ''updated-at''
       = Some ''2025-01-11''" by blast
  from MetaSave_key_length [of "''federal-revenue-updated-at''" no_meta_faults empty_db "''2025-01-11''"] long
  have b: "ret (MetaSave no_meta_faults empty_db ''federal-revenue-updated-at'' ''2025-01-11'')
       = Some MetaKeyTooLong"
    and c: "final (MetaSave no_meta_faults empty_db ''federal-revenue-updated-at'' ''2025-01-11'')
       = empty_db" by blast+
  have s: "length ''updated-at'' \<le> 16" by simp
  from s ok a long b c show ?thesis by (intro conjI)
qed


section \<open>Which failures are returned\<close>

lemma it_ret:
  "(\<forall>i. \<not> tx_begin_fails f i) \<Longrightarrow> ret (import_transactions f tc d tp) = None"
proof (induction tp arbitrary: d)
  case Nil
  then show ?case by simp
next
  case (Cons x tp)
  obtain i ps where x: "x = (i, ps)" by (cases x)
  from Cons show ?case by (simp add: x Let_def case_prod_beta)
qed

lemma it_begin:
  "\<exists>i\<in>fst ` set tp. tx_begin_fails f i \<Longrightarrow>
     ret (import_transactions f tc d tp) = Some BeginError"
proof (induction tp arbitrary: d)
  case Nil
  then show ?case by simp
next
  case (Cons x tp)
  obtain i ps where x: "x = (i, ps)" by (cases x)
  show ?case
  proof (cases "tx_begin_fails f i")
    case True
    then show ?thesis by (simp add: x)
  next
    case False
    with Cons.prems x have "\<exists>i\<in>fst ` set tp. tx_begin_fails f i" by auto
    from Cons.IH [OF this] False show ?thesis by (simp add: x Let_def case_prod_beta)
  qed
qed

lemma batch_ret:
  "ret (ImportPartnersBatch f d batch) =
     (if batch = [] then None
      else case resolve_business_ids f d batch of
             Inl (e, t) \<Rightarrow> Some e
           | Inr (ids, rows, t) \<Rightarrow>
               ret (import_transactions f
                      (fst (snd (group_partners ids rows (cnpjToPartners_of batch)))) d
                      (fst (group_partners ids rows (cnpjToPartners_of batch)))))"
  by (simp add: ImportPartnersBatch_def import_failed_def Let_def case_prod_beta
      split: sum.split)

lemma direct_error_final:
  "ret (CreateCompaniesStructuredDirect f now d batch) \<noteq> None \<Longrightarrow>
     final (CreateCompaniesStructuredDirect f now d batch) = d"
  by (simp add: direct_final)

lemma direct_businesses_sent:
  "InsertSocios ps \<notin> set (fst (snd (snd (snd (direct_businesses f now d vs a0)))))"
  by (simp add: direct_businesses_def resolve_existing_def case_prod_beta Let_def)

lemma direct_partners_sent:
  "InsertSocios ps \<in> set (fst (snd (snd (direct_partners f d1 qs a1)))) \<longleftrightarrow> qs \<noteq> [] \<and> ps = qs"
  by (auto simp: direct_partners_def)

lemma direct_partners_warned:
  "qs \<noteq> [] \<Longrightarrow> stmt_fails a1 (insert_partners_fails f) \<Longrightarrow>
     fst (snd (direct_partners f d1 qs a1)) = [(Warn, ''error batch inserting partners'')]"
  by (simp add: direct_partners_def)

lemma direct_commit_logs: "set l \<subseteq> set (logs (direct_commit f d d2 a l t))"
  by (simp add: direct_commit_def)

text \<open>When the insert of the partners is sent, and with which rows.\<close>

lemma direct_sent:
  "InsertSocios ps \<in> set (trace (CreateCompaniesStructuredDirect f now d batch)) \<longleftrightarrow>
     \<not> begin_fails f \<and> batch_values batch \<noteq> []
     \<and> \<not> fst (set_locals (set_local_fails f) False set_local_names)
     \<and> \<not> insert_businesses_fails f
     \<and> ps \<noteq> []
     \<and> ps = batch_partner_values (direct_id_map f now d (batch_values batch)) batch"
  unfolding CreateCompaniesStructuredDirect_def Let_def case_prod_beta
  by (auto simp: direct_businesses_sent direct_partners_sent direct_commit_trace
      direct_businesses_proj set_local_names_def)

lemma direct_warned:
  assumes "InsertSocios ps \<in> set (trace (CreateCompaniesStructuredDirect f now d batch))"
    and "insert_partners_fails f \<noteq> None"
  shows "(Warn, ''error batch inserting partners'')
    \<in> set (logs (CreateCompaniesStructuredDirect f now d batch))"
proof -
  from assms(1) have s: "\<not> begin_fails f" "batch_values batch \<noteq> []"
    "\<not> fst (set_locals (set_local_fails f) False set_local_names)"
    "\<not> insert_businesses_fails f"
    "batch_partner_values (direct_id_map f now d (batch_values batch)) batch \<noteq> []"
    unfolding direct_sent by auto
  from assms(2) have fl: "stmt_fails a (insert_partners_fails f)" for a
    by (simp add: stmt_fails_def)
  show ?thesis
    unfolding CreateCompaniesStructuredDirect_def Let_def case_prod_beta
    using s
    by (auto simp: direct_businesses_proj direct_partners_warned [OF _ fl]
        intro!: subsetD [OF direct_commit_logs])
qed

lemma direct_sent_aborted:
  assumes "InsertSocios ps \<in> set (trace (CreateCompaniesStructuredDirect f now d batch))"
  shows "direct_aborted f now d batch =
     stmt_aborts (direct_lookup_aborts f now d (batch_values batch)) (insert_partners_fails f)"
  using assms unfolding direct_sent by (auto simp: direct_aborted_def Let_def)

lemma direct_refused:
  assumes s: "InsertSocios ps \<in> set (trace (CreateCompaniesStructuredDirect f now d batch))"
    and a: "insert_partners_fails f = Some AbortsTransaction"
  shows "ret (CreateCompaniesStructuredDirect f now d batch) = Some CommitError"
proof -
  from direct_sent_aborted [OF s] a have "direct_aborted f now d batch"
    by (simp add: stmt_aborts_def)
  with s show ?thesis unfolding direct_sent by (simp add: direct_ret)
qed

lemma direct_only_logged:
  assumes s: "InsertSocios ps \<in> set (trace (CreateCompaniesStructuredDirect f now d batch))"
    and n: "ret (CreateCompaniesStructuredDirect f now d batch) = None"
    and a: "insert_partners_fails f \<noteq> None"
  shows "insert_partners_fails f = Some KeepsTransaction
    \<and> final (CreateCompaniesStructuredDirect f now d batch)
        = fst (insert_businesses now (batch_values batch) d)"
proof -
  from s have v: "batch_values batch \<noteq> []" unfolding direct_sent by simp
  from n have "\<not> direct_aborted f now d batch"
    by (simp add: direct_ret split: if_splits)
  with direct_sent_aborted [OF s]
  have "insert_partners_fails f \<noteq> Some AbortsTransaction"
    by (auto simp: stmt_aborts_def)
  with a have k: "insert_partners_fails f = Some KeepsTransaction"
    by (cases "insert_partners_fails f") (auto intro: failure.exhaust)
  from n v a have "final (CreateCompaniesStructuredDirect f now d batch)
        = fst (insert_businesses now (batch_values batch) d)"
    by (simp add: direct_final)
  with k show ?thesis by simp
qed

subsection \<open>Concrete runs\<close>

lemma acme_branch_cnpj: "cnpj (vals acme_branch_row) = ''12345678000270''"
  by (simp add: acme_branch_row_def)

lemma commit_failure_eval:
  "ret (ImportPartnersBatch commit_failure db_acme [(''12345678'', [alice])]) = None
   \<and> logs (ImportPartnersBatch commit_failure db_acme [(''12345678'', [alice])])
       = [(Warn, ''error committing transaction'')]
   \<and> socios_cnpj (final (ImportPartnersBatch commit_failure db_acme [(''12345678'', [alice])])) = []"
  by (simp add: ImportPartnersBatch_def resolve_business_ids_def baseCNPJs_of_def fullCNPJs_of_def
      cnpjToPartners_of_def removeNonDigits_def isDigit_def run_query_def commit_failure_def
      no_batch_faults_def select_by_base_def select_by_cnpj_def select_by_id_def db_acme_def
      acme_row_cnpj add_business_ids_def append_at_def lookup_list_def group_partners_def
      group_ids_def import_partner_values_def import_partner_logs_def long_ok
      tx_set_local_names_def Let_def)

lemma two_resolve:
  "resolve_business_ids insert_failure_for_1 db_two [(''12345678'', [alice])] =
     Inr ([(''12345678'', [1, 2])], [(1, ''12345678000199''), (2, ''12345678000270'')],
          [SelectByBase [''12345678''], SelectByID [1, 2]])"
  by (simp add: resolve_business_ids_def baseCNPJs_of_def fullCNPJs_of_def removeNonDigits_def
      isDigit_def run_query_def insert_failure_for_1_def no_batch_faults_def select_by_base_def
      select_by_cnpj_def select_by_id_def db_two_def acme_row_cnpj acme_branch_cnpj
      add_business_ids_def append_at_def lookup_list_def Let_def)
     (simp add: acme_row_def acme_branch_row_def)

lemma two_group:
  "group_partners [(''12345678'', [1, 2])] [(1, ''12345678000199''), (2, ''12345678000270'')]
       (cnpjToPartners_of [(''12345678'', [alice])]) =
     ([(1, [alice]), (2, [alice])], [(1, ''12345678000199''), (2, ''12345678000270'')], [])"
  by (simp add: cnpjToPartners_of_def removeNonDigits_def isDigit_def group_partners_def
      group_ids_def append_at_def lookup_list_def)

lemma insert_failure_eval:
  "ret (ImportPartnersBatch insert_failure_for_1 db_two [(''12345678'', [alice])]) = None
   \<and> logs (ImportPartnersBatch insert_failure_for_1 db_two [(''12345678'', [alice])])
       = [(Warn, ''error batch inserting partners'')]
   \<and> map (\<lambda>r. (business_id r, s_cnpj r, nome_socio r))
        (socios_cnpj (final (ImportPartnersBatch insert_failure_for_1 db_two
           [(''12345678'', [alice])])))
       = [(2, ''12345678000270'', ''ALICE'')]"
proof -
  have f: "tx_insert_fails insert_failure_for_1 i = (i = 1)"
    "\<not> tx_begin_fails insert_failure_for_1 i" "\<not> tx_commit_fails insert_failure_for_1 i"
    "tx_set_local_fails insert_failure_for_1 i = (\<lambda>n. None)" for i
    by (simp_all add: insert_failure_for_1_def no_batch_faults_def)
  have n: "truncateTo120 (NomeSocio alice) = ''ALICE''"
    by (simp add: alice_def truncateTo120_short)
  have s: "socios_cnpj db_two = []" by (simp add: db_two_def)
  show ?thesis
    by (simp add: ImportPartnersBatch_def two_resolve two_group f import_partner_values_def
        import_partner_logs_def long_ok import_partner_args_def n Let_def s)
qed

lemma acme_valid: "valid_cnpj acme" "removeNonDigits (CNPJ acme) = ''12345678000199''"
  "QuadroSocietario acme = [alice, holding]"
  "direct_partner_ok alice" "\<not> direct_partner_ok holding"
  by (simp_all add: valid_cnpj_def acme_def direct_partner_ok_def alice_def holding_def
      removeNonDigits_def isDigit_def)

lemma acme_id_map:
  "direct_id_map (no_faults\<lparr>insert_partners_fails := x\<rparr>) 200 empty_db [business_args acme]
     ''12345678000199'' = Some 1"
  by (simp add: direct_id_map_def resolve_inserted_def resolve_existing_def set_ids_def
      no_faults_def empty_db_def Let_def acme_cnpj del: cnpj_business_args)

lemma acme_partner_values:
  "batch_partner_values
     (direct_id_map (no_faults\<lparr>insert_partners_fails := x\<rparr>) 200 empty_db [business_args acme])
     [acme] = [direct_partner_args 1 ''12345678000199'' alice]"
  by (simp add: batch_partner_values_def company_partner_values_def company_has_id_def
      acme_valid acme_id_map)

lemma acme_sent:
  "InsertSocios [direct_partner_args 1 ''12345678000199'' alice]
     \<in> set (trace (CreateCompaniesStructuredDirect (no_faults\<lparr>insert_partners_fails := x\<rparr>)
                     200 empty_db [acme]))"
  unfolding direct_sent
  by (simp add: acme_values acme_partner_values)

lemma acme_not_aborted:
  "\<not> direct_lookup_aborts (no_faults\<lparr>insert_partners_fails := x\<rparr>) 200 empty_db [business_args acme]"
  by (simp add: direct_lookup_aborts_def resolve_inserted_def resolve_existing_def
      no_faults_def Let_def case_prod_beta stmt_fails_def stmt_aborts_def)

lemma acme_failure_ret:
  "ret (CreateCompaniesStructuredDirect partners_insert_failure 200 empty_db [acme]) = None"
proof -
  have e: "partners_insert_failure = no_faults\<lparr>insert_partners_fails := Some KeepsTransaction\<rparr>"
    by (simp add: partners_insert_failure_def)
  have "\<not> direct_aborted partners_insert_failure 200 empty_db [acme]"
    unfolding e direct_sent_aborted [OF acme_sent]
    by (simp add: acme_values acme_not_aborted stmt_aborts_def)
  then show ?thesis
    by (simp add: direct_ret e)
qed



lemma one_resolve:
  "resolve_business_ids begin_failure db_acme [(''12345678'', [alice])] =
     Inr ([(''12345678'', [1])], [(1, ''12345678000199'')],
          [SelectByBase [''12345678''], SelectByID [1]])"
  "resolve_business_ids commit_failure db_acme [(''12345678'', [alice])] =
     Inr ([(''12345678'', [1])], [(1, ''12345678000199'')],
          [SelectByBase [''12345678''], SelectByID [1]])"
  "resolve_business_ids lookup_failure db_acme [(''12345678'', [alice])] =
     Inl (QueryBasesError, [SelectByBase [''12345678'']])"
  by (simp_all add: resolve_business_ids_def baseCNPJs_of_def fullCNPJs_of_def removeNonDigits_def
      isDigit_def run_query_def begin_failure_def commit_failure_def lookup_failure_def
      no_batch_faults_def select_by_base_def select_by_cnpj_def select_by_id_def db_acme_def
      acme_row_cnpj add_business_ids_def append_at_def lookup_list_def Let_def)
     (simp_all add: acme_row_def)

lemma one_group:
  "group_partners [(''12345678'', [1])] [(1, ''12345678000199'')]
       (cnpjToPartners_of [(''12345678'', [alice])]) =
     ([(1, [alice])], [(1, ''12345678000199'')], [])"
  by (simp add: cnpjToPartners_of_def removeNonDigits_def isDigit_def group_partners_def
      group_ids_def append_at_def lookup_list_def)



section \<open>Properties of the partners-only path\<close>

lemma partner_count_update:
  "partner_count (AList.update k v m) + length (lookup_list m k) = partner_count m + length v"
  by (induction m) (auto simp: partner_count_def lookup_list_def)

lemma partner_count_append_at:
  "partner_count (append_at k vs m) = partner_count m + length vs"
  using partner_count_update [of k "lookup_list m k @ vs" m] by (simp add: append_at_def)

lemma group_rows_counts:
  assumes "partner_count batch = n" and "n < batchSize" and "n = 0 \<longrightarrow> batch = []"
  shows "(\<forall>b\<in>set (group_rows parse rows batch n). 0 < partner_count b \<and> partner_count b \<le> batchSize)
    \<and> (\<forall>b\<in>set (butlast (group_rows parse rows batch n)). partner_count b = batchSize)"
  using assms
proof (induction rows arbitrary: batch n)
  case Nil
  then show ?case by auto
next
  case (Cons row rows)
  show ?case
  proof (cases "length row < 11")
    case True
    with Cons.IH [OF Cons.prems] show ?thesis by simp
  next
    case long: False
    show ?thesis
    proof (cases "parse row")
      case None
      with long Cons.IH [OF Cons.prems] show ?thesis by simp
    next
      case (Some partner)
      let ?b = "append_at (hd row) [partner] batch"
      have cnt: "partner_count ?b = n + 1"
        using Cons.prems(1) by (simp add: partner_count_append_at)
      show ?thesis
      proof (cases "n + 1 \<ge> batchSize")
        case True
        with Cons.prems(2) have full: "partner_count ?b = batchSize" using cnt by simp
        have z: "partner_count [] = 0" by (simp add: partner_count_def)
        have pos: "0 < batchSize" by (simp add: batchSize_def)
        from Cons.IH [OF z pos] have ih:
          "(\<forall>b\<in>set (group_rows parse rows [] 0). 0 < partner_count b \<and> partner_count b \<le> batchSize)
           \<and> (\<forall>b\<in>set (butlast (group_rows parse rows [] 0)). partner_count b = batchSize)"
          by simp
        from long Some True have e: "group_rows parse (row # rows) batch n
            = ?b # group_rows parse rows [] 0" by (simp add: Let_def)
        from ih full pos show ?thesis unfolding e by auto
      next
        case False
        then have lt: "n + 1 < batchSize" by simp
        have nz: "n + 1 = 0 \<longrightarrow> ?b = []" by simp
        from long Some False have e: "group_rows parse (row # rows) batch n
            = group_rows parse rows ?b (n + 1)" by (simp add: Let_def)
        from Cons.IH [OF cnt lt nz] show ?thesis unfolding e .
      qed
    qed
  qed
qed

lemma lookup_append_at:
  "lookup_list (append_at c v m) k = (if k = c then lookup_list m c @ v else lookup_list m k)"
  by (simp add: append_at_def lookup_list_def update_conv')

lemma lookup_add_business_ids:
  "lookup_list (add_business_ids rows m) k = lookup_list m k @ map fst (filter (\<lambda>x. snd x = k) rows)"
proof (induction rows arbitrary: m)
  case Nil
  then show ?case by (simp add: add_business_ids_def)
next
  case (Cons x rows)
  obtain i c where x: "x = (i, c)" by (cases x)
  have "add_business_ids (x # rows) m = add_business_ids rows (append_at c [i] m)"
    by (simp add: add_business_ids_def x)
  with Cons.IH [of "append_at c [i] m"] show ?case
    by (auto simp: x lookup_append_at)
qed

lemma lookup_empty [simp]: "lookup_list [] k = []"
  by (simp add: lookup_list_def)

lemma select_by_base_for:
  "map fst (filter (\<lambda>x. snd x = k) (select_by_base d bs)) =
     map b_id (filter (\<lambda>r. take 8 (cnpj (vals r)) = k \<and> k \<in> set bs) (business d))"
  by (induction "business d" arbitrary: d) (auto simp: select_by_base_def filter_map comp_def
      intro: arg_cong [where f = "map b_id"] filter_cong)

lemma select_by_cnpj_for:
  "map fst (filter (\<lambda>x. snd x = k) (select_by_cnpj d cs)) =
     map b_id (filter (\<lambda>r. cnpj (vals r) = k \<and> k \<in> set cs) (business d))"
  by (induction "business d" arbitrary: d) (auto simp: select_by_cnpj_def filter_map comp_def
      intro: arg_cong [where f = "map b_id"] filter_cong)

lemma resolve_ok:
  assumes "resolve_business_ids f d batch = Inr (ids, rows3, t)"
  shows "t = (if baseCNPJs_of batch = [] then [] else [SelectByBase (baseCNPJs_of batch)])
           @ (if fullCNPJs_of batch = [] then [] else [SelectByCNPJ (fullCNPJs_of batch)])
           @ (if remdups (concat (map snd ids)) = [] then []
              else [SelectByID (remdups (concat (map snd ids)))])"
    and "lookup_list ids k =
           map b_id (filter (\<lambda>r. take 8 (cnpj (vals r)) = k \<and> k \<in> set (baseCNPJs_of batch))
                       (business d))
           @ map b_id (filter (\<lambda>r. cnpj (vals r) = k \<and> k \<in> set (fullCNPJs_of batch))
                         (business d))"
proof -
  let ?rows1 = "if baseCNPJs_of batch = [] then [] else select_by_base d (baseCNPJs_of batch)"
  let ?rows2 = "if fullCNPJs_of batch = [] then [] else select_by_cnpj d (fullCNPJs_of batch)"
  from assms have ids: "ids = add_business_ids ?rows2 (add_business_ids ?rows1 [])"
    by (auto simp: resolve_business_ids_def run_query_def Let_def split: if_splits sum.splits)
  from assms show "t = (if baseCNPJs_of batch = [] then [] else [SelectByBase (baseCNPJs_of batch)])
           @ (if fullCNPJs_of batch = [] then [] else [SelectByCNPJ (fullCNPJs_of batch)])
           @ (if remdups (concat (map snd ids)) = [] then []
              else [SelectByID (remdups (concat (map snd ids)))])"
    by (auto simp: resolve_business_ids_def run_query_def Let_def split: if_splits sum.splits)
  show "lookup_list ids k =
           map b_id (filter (\<lambda>r. take 8 (cnpj (vals r)) = k \<and> k \<in> set (baseCNPJs_of batch))
                       (business d))
           @ map b_id (filter (\<lambda>r. cnpj (vals r) = k \<and> k \<in> set (fullCNPJs_of batch))
                         (business d))"
    unfolding ids lookup_add_business_ids
    by (simp add: select_by_base_for select_by_cnpj_for)
qed

lemma is_fresh:
  "\<exists>new. socios_cnpj (insert_socios ps d) = socios_cnpj d @ new
     \<and> (\<forall>n\<in>set new. \<not> list_ex (\<lambda>r. s_cnpj r = s_cnpj n \<and> nome_socio r = nome_socio n)
                           (socios_cnpj d))"
proof (induction ps arbitrary: d)
  case Nil
  then show ?case by simp
next
  case (Cons p ps)
  let ?d1 = "d\<lparr>socios_cnpj := socios_cnpj d @ [p]\<rparr>"
  show ?case
  proof (cases "list_ex (\<lambda>r. s_cnpj r = s_cnpj p \<and> nome_socio r = nome_socio p) (socios_cnpj d)")
    case True
    with Cons.IH [of d] show ?thesis by simp
  next
    case False
    from Cons.IH [of ?d1] obtain new
      where n: "socios_cnpj (insert_socios ps ?d1) = socios_cnpj d @ p # new"
        and f: "\<forall>n\<in>set new. \<not> list_ex (\<lambda>r. s_cnpj r = s_cnpj n \<and> nome_socio r = nome_socio n)
                           (socios_cnpj d @ [p])"
      by auto
    from f have "\<forall>n\<in>set new. \<not> list_ex (\<lambda>r. s_cnpj r = s_cnpj n \<and> nome_socio r = nome_socio n)
                           (socios_cnpj d)" by (auto simp: list_ex_iff)
    with False n show ?thesis by auto
  qed
qed

lemma it_fresh:
  "\<exists>new. socios_cnpj (final (import_transactions f tc d tp)) = socios_cnpj d @ new
     \<and> (\<forall>n\<in>set new. \<not> list_ex (\<lambda>r. s_cnpj r = s_cnpj n \<and> nome_socio r = nome_socio n)
                           (socios_cnpj d))"
proof (induction tp arbitrary: d)
  case Nil
  then show ?case by simp
next
  case (Cons x tp)
  obtain i ps where x: "x = (i, ps)" by (cases x)
  let ?c = "case map_of tc i of None \<Rightarrow> [] | Some c \<Rightarrow> c"
  let ?rows = "import_partner_values i ?c ps"
  let ?d1 = "insert_socios ?rows d"
  from is_fresh [of ?rows d] obtain n1
    where n1: "socios_cnpj ?d1 = socios_cnpj d @ n1"
      and f1: "\<forall>n\<in>set n1. \<not> list_ex (\<lambda>r. s_cnpj r = s_cnpj n \<and> nome_socio r = nome_socio n)
                           (socios_cnpj d)" by auto
  from Cons.IH [of ?d1] obtain n2
    where n2: "socios_cnpj (final (import_transactions f tc ?d1 tp)) = socios_cnpj d @ n1 @ n2"
      and f2: "\<forall>n\<in>set n2. \<not> list_ex (\<lambda>r. s_cnpj r = s_cnpj n \<and> nome_socio r = nome_socio n)
                           (socios_cnpj d @ n1)" by (auto simp: n1)
  from f2 have f2': "\<forall>n\<in>set n2. \<not> list_ex (\<lambda>r. s_cnpj r = s_cnpj n \<and> nome_socio r = nome_socio n)
                           (socios_cnpj d)" by (auto simp: list_ex_iff)
  from f1 f2' have both: "\<forall>n\<in>set (n1 @ n2). \<not> list_ex (\<lambda>r. s_cnpj r = s_cnpj n \<and> nome_socio r = nome_socio n)
                           (socios_cnpj d)" by auto
  have a: "\<exists>new. socios_cnpj (final (import_transactions f tc ?d1 tp)) = socios_cnpj d @ new
     \<and> (\<forall>n\<in>set new. \<not> list_ex (\<lambda>r. s_cnpj r = s_cnpj n \<and> nome_socio r = nome_socio n)
                           (socios_cnpj d))"
    using n2 both by (intro exI [of _ "n1 @ n2"]) simp
  note b = Cons.IH [of d]
  have e: "\<exists>new. socios_cnpj d = socios_cnpj d @ new
     \<and> (\<forall>n\<in>set new. \<not> list_ex (\<lambda>r. s_cnpj r = s_cnpj n \<and> nome_socio r = nome_socio n)
                           (socios_cnpj d))" by simp
  show ?case using a b e
    by (simp add: x Let_def case_prod_beta)
qed

lemma it_business [simp]: "business (final (import_transactions f tc d tp)) = business d"
proof (induction tp arbitrary: d)
  case Nil
  then show ?case by simp
next
  case (Cons x tp)
  obtain i ps where x: "x = (i, ps)" by (cases x)
  from Cons.IH show ?case by (simp add: x Let_def case_prod_beta)
qed

lemma batch_fresh:
  "(\<exists>new. socios_cnpj (final (ImportPartnersBatch f d batch)) = socios_cnpj d @ new
     \<and> (\<forall>n\<in>set new. \<not> list_ex (\<lambda>r. s_cnpj r = s_cnpj n \<and> nome_socio r = nome_socio n)
                           (socios_cnpj d)))
   \<and> business (final (ImportPartnersBatch f d batch)) = business d"
  using it_fresh [of f _ d]
  by (simp add: ImportPartnersBatch_def import_failed_def Let_def case_prod_beta split: sum.split)


lemma resolve_eval:
  "resolve_business_ids no_batch_faults db_acme
       [(''12345678'', [alice]), (''12.345.678/0001-99'', [long_partner])] =
     Inr ([(''12345678'', [1]), (''12345678000199'', [1])], [(1, ''12345678000199'')],
          [SelectByBase [''12345678''], SelectByCNPJ [''12345678000199''], SelectByID [1]])"
  by (simp add: resolve_business_ids_def baseCNPJs_of_def fullCNPJs_of_def removeNonDigits_def
      isDigit_def run_query_def no_batch_faults_def select_by_base_def select_by_cnpj_def
      select_by_id_def db_acme_def acme_row_cnpj add_business_ids_def append_at_def
      lookup_list_def Let_def)
     (simp add: acme_row_def)

lemma group_rows_eval:
  "map (map fst) (group_rows example_parse [partner_row_a, partner_row_c] [] 0) = [[''12345678'']]
   \<and> map partner_count (group_rows example_parse [partner_row_a, partner_row_c] [] 0) = [2]"
  by (simp add: partner_row_a_def partner_row_c_def example_parse_def append_at_def
      lookup_list_def batchSize_def partner_count_def Let_def)


end
